theory Spec2Isabelle
  imports Complex_Main
begin

section \<open>Floating-point values\<close>

text \<open>
  The arrays of \<^verbatim>\<open>anaflow/flow/laplace.py\<close> hold IEEE doubles. A double is a
  finite number, one of the two infinities, or NaN. The model has a single zero: the
  program compares zeros and multiplies by them, and both treat \<^verbatim>\<open>-0.0\<close> as
  \<^verbatim>\<open>0.0\<close>; its divisors are literals, validated positive inputs, square roots
  and Gamma values of positive arguments.
\<close>

datatype fl = Fin real | PInf | NInf | NaN

text \<open>Comparison: every comparison with NaN is false.\<close>

fun fl_less :: "fl \<Rightarrow> fl \<Rightarrow> bool" where
  "fl_less NaN _ = False"
| "fl_less _ NaN = False"
| "fl_less (Fin a) (Fin b) = (a < b)"
| "fl_less (Fin _) PInf = True"
| "fl_less (Fin _) NInf = False"
| "fl_less PInf _ = False"
| "fl_less NInf NInf = False"
| "fl_less NInf _ = True"

definition fl_gt :: "fl \<Rightarrow> fl \<Rightarrow> bool" where
  "fl_gt a b = fl_less b a"

fun fl_neg :: "fl \<Rightarrow> fl" where
  "fl_neg (Fin a) = Fin (- a)"
| "fl_neg PInf = NInf"
| "fl_neg NInf = PInf"
| "fl_neg NaN = NaN"

fun fl_abs :: "fl \<Rightarrow> fl" where
  "fl_abs (Fin a) = Fin \<bar>a\<bar>"
| "fl_abs PInf = PInf"
| "fl_abs NInf = PInf"
| "fl_abs NaN = NaN"

fun is_nan :: "fl \<Rightarrow> bool" where
  "is_nan NaN = True"
| "is_nan _ = False"

fun is_inf :: "fl \<Rightarrow> bool" where
  "is_inf PInf = True"
| "is_inf NInf = True"
| "is_inf _ = False"

text \<open>
  Arithmetic of numpy doubles: IEEE rules for NaN, infinities and zero; a finite non-zero
  exact result is rounded by \<open>rnd\<close> (which may overflow to an infinity or underflow to
  zero). The rounding function is a parameter of the model. No operation raises.
\<close>

definition signed_inf :: "bool \<Rightarrow> fl" where
  "signed_inf pos = (if pos then PInf else NInf)"

fun fl_pos :: "fl \<Rightarrow> bool" where
  "fl_pos (Fin a) = (0 \<le> a)"
| "fl_pos PInf = True"
| "fl_pos NInf = False"
| "fl_pos NaN = True"

fun fl_mul :: "(real \<Rightarrow> fl) \<Rightarrow> fl \<Rightarrow> fl \<Rightarrow> fl" where
  "fl_mul rnd NaN _ = NaN"
| "fl_mul rnd _ NaN = NaN"
| "fl_mul rnd (Fin a) (Fin b) = (if a * b = 0 then Fin 0 else rnd (a * b))"
| "fl_mul rnd (Fin a) y = (if a = 0 then NaN else signed_inf (fl_pos (Fin a) = fl_pos y))"
| "fl_mul rnd x (Fin b) = (if b = 0 then NaN else signed_inf (fl_pos x = fl_pos (Fin b)))"
| "fl_mul rnd x y = signed_inf (fl_pos x = fl_pos y)"

fun fl_div :: "(real \<Rightarrow> fl) \<Rightarrow> fl \<Rightarrow> fl \<Rightarrow> fl" where
  "fl_div rnd NaN _ = NaN"
| "fl_div rnd _ NaN = NaN"
| "fl_div rnd (Fin a) (Fin b) =
     (if b = 0 then (if a = 0 then NaN else signed_inf (0 < a))
      else if a = 0 then Fin 0 else rnd (a / b))"
| "fl_div rnd (Fin a) y = Fin 0"
| "fl_div rnd x (Fin b) = signed_inf (fl_pos x = fl_pos (Fin b))"
| "fl_div rnd x y = NaN"

fun fl_add :: "(real \<Rightarrow> fl) \<Rightarrow> fl \<Rightarrow> fl \<Rightarrow> fl" where
  "fl_add rnd NaN _ = NaN"
| "fl_add rnd _ NaN = NaN"
| "fl_add rnd (Fin a) (Fin b) = (if a + b = 0 then Fin 0 else rnd (a + b))"
| "fl_add rnd (Fin a) y = y"
| "fl_add rnd x (Fin b) = x"
| "fl_add rnd x y = (if x = y then x else NaN)"

definition fl_sub :: "(real \<Rightarrow> fl) \<Rightarrow> fl \<Rightarrow> fl \<Rightarrow> fl" where
  "fl_sub rnd a b = fl_add rnd a (fl_neg b)"

text \<open>The largest finite double, \<^verbatim>\<open>numpy.finfo(float).max\<close>.\<close>

definition float_max :: real where
  "float_max = (2 - 1 / 2 ^ 52) * 2 ^ 1023"

text \<open>
  \<^verbatim>\<open>numpy.nan_to_num\<close> on one element, with its default arguments: NaN becomes
  zero, an infinity becomes the largest finite double of its sign.
\<close>

fun nan_to_num :: "fl \<Rightarrow> fl" where
  "nan_to_num NaN = Fin 0"
| "nan_to_num PInf = Fin float_max"
| "nan_to_num NInf = Fin (- float_max)"
| "nan_to_num (Fin a) = Fin a"

text \<open>
  \<^verbatim>\<open>numpy.min\<close> and \<^verbatim>\<open>numpy.max\<close> of two elements: NaN propagates.
\<close>

definition fl_min :: "fl \<Rightarrow> fl \<Rightarrow> fl" where
  "fl_min a b = (if is_nan a then a else if is_nan b then b else if fl_less b a then b else a)"

definition fl_max :: "fl \<Rightarrow> fl \<Rightarrow> fl" where
  "fl_max a b = (if is_nan a then a else if is_nan b then b else if fl_less a b then b else a)"

section \<open>Errors\<close>

datatype error =
    ValueError string
  | IndexError
  | LinAlgError
  | ZeroDivisionError
  | OverflowError

text \<open>The reductions raise \<^verbatim>\<open>ValueError\<close> on an array of size zero.\<close>

definition np_min :: "fl list \<Rightarrow> error + fl" where
  "np_min xs = (case xs of
       [] \<Rightarrow> Inl (ValueError ''zero-size array to reduction operation minimum which has no identity'')
     | x # ys \<Rightarrow> Inr (foldl fl_min x ys))"

definition np_max :: "fl list \<Rightarrow> error + fl" where
  "np_max xs = (case xs of
       [] \<Rightarrow> Inl (ValueError ''zero-size array to reduction operation maximum which has no identity'')
     | x # ys \<Rightarrow> Inr (foldl fl_max x ys))"

section \<open>Input validation of \<^verbatim>\<open>grf_laplace\<close>\<close>

text \<open>
  Lines 103 to 125. The well conductivity is resolved first (\<^verbatim>\<open>K_part[0]\<close> when
  \<^verbatim>\<open>K_well\<close> is \<^verbatim>\<open>None\<close>), then the checks run in the order of the source.
  The result is the resolved well conductivity. The flow dimension \<^verbatim>\<open>dim\<close> is
  written \<open>dimf\<close>.
\<close>

definition resolve_K_well :: "fl list \<Rightarrow> fl option \<Rightarrow> error + fl" where
  "resolve_K_well K_part K_well =
     (case K_well of
        Some k \<Rightarrow> Inr k
      | None \<Rightarrow> (case K_part of [] \<Rightarrow> Inl IndexError | k # _ \<Rightarrow> Inr k))"

definition radii_sorted :: "fl list \<Rightarrow> bool" where
  "radii_sorted R_part = list_all (\<lambda>(r1, r2). fl_less r1 r2) (zip (butlast R_part) (tl R_part))"

definition check_rad :: "fl list \<Rightarrow> fl list \<Rightarrow> error + unit" where
  "check_rad rad R_part =
     (case np_min rad of
        Inl e \<Rightarrow> Inl e
      | Inr lo \<Rightarrow>
          if \<not> fl_gt lo (hd R_part)
          then Inl (ValueError ''The given radii need to be in the given range.'')
          else (case np_max rad of
                  Inl e \<Rightarrow> Inl e
                | Inr hi \<Rightarrow>
                    if fl_gt hi (last R_part)
                    then Inl (ValueError ''The given radii need to be in the given range.'')
                    else Inr ()))"

definition validate ::
  "fl list \<Rightarrow> fl list \<Rightarrow> fl list \<Rightarrow> fl list \<Rightarrow> fl \<Rightarrow> fl \<Rightarrow> fl option \<Rightarrow> error + fl" where
  "validate rad S_part K_part R_part dimf lat_ext K_well =
     (case resolve_K_well K_part K_well of
        Inl e \<Rightarrow> Inl e
      | Inr kw \<Rightarrow>
          if \<not> (int (length R_part) - 1 = int (length S_part)
                \<and> length S_part = length K_part \<and> length K_part > 0)
          then Inl (ValueError ''R_part, S_part and K_part need matching lengths.'')
          else if fl_less (hd R_part) (Fin 0)
          then Inl (ValueError ''The wellradius needs to be >= 0.'')
          else if \<not> radii_sorted R_part
          then Inl (ValueError ''The radii values need to be sorted.'')
          else (case check_rad rad R_part of
                  Inl e \<Rightarrow> Inl e
                | Inr _ \<Rightarrow>
                    if \<not> list_all (\<lambda>con. fl_gt con (Fin 0)) K_part
                    then Inl (ValueError ''The Conductivity needs to be positiv.'')
                    else if \<not> list_all (\<lambda>stor. fl_gt stor (Fin 0)) S_part
                    then Inl (ValueError ''The Storage needs to be positiv.'')
                    else if \<not> fl_gt dimf (Fin 0) \<or> fl_gt dimf (Fin 3)
                    then Inl (ValueError ''The dimension needs to be positiv and <= 3.'')
                    else if \<not> fl_gt lat_ext (Fin 0)
                    then Inl (ValueError ''The lateral extend needs to be positiv.'')
                    else if \<not> fl_gt kw (Fin 0)
                    then Inl (ValueError ''The well conductivity needs to be positiv.'')
                    else Inr kw))"

section \<open>External numerical routines\<close>

text \<open>
  The routines that \<^verbatim>\<open>laplace.py\<close> imports are parameters of the model:
  the rounding of the basic operations, \<^verbatim>\<open>numpy.sqrt\<close>, the power of numpy
  doubles, the power of Python floats (\<open>None\<close> when it raises
  \<^verbatim>\<open>OverflowError\<close>), the
  modified Bessel functions \<^verbatim>\<open>scipy.special.kv\<close> and \<^verbatim>\<open>iv\<close>,
  \<^verbatim>\<open>scipy.special.gamma\<close>, \<^verbatim>\<open>anaflow.tools.special.sph_surf\<close>,
  \<^verbatim>\<open>numpy.linalg.solve\<close> (\<open>None\<close> when it raises \<^verbatim>\<open>LinAlgError\<close>
  on a singular matrix) and \<^verbatim>\<open>pentapy.solve\<close> on a flat column-wise banded matrix (which
  returns an array and does not modify its arguments).
\<close>

record env =
  rnd :: "real \<Rightarrow> fl"
  np_sqrt :: "fl \<Rightarrow> fl"
  np_power :: "fl \<Rightarrow> fl \<Rightarrow> fl"
  py_pow :: "fl \<Rightarrow> fl \<Rightarrow> fl option"
  kv :: "fl \<Rightarrow> fl \<Rightarrow> fl"
  iv :: "fl \<Rightarrow> fl \<Rightarrow> fl"
  gamma :: "fl \<Rightarrow> fl"
  sph_surf :: "fl \<Rightarrow> fl"
  linalg_solve :: "fl list list \<Rightarrow> fl list \<Rightarrow> fl list option"
  penta_solve :: "fl list list \<Rightarrow> fl list \<Rightarrow> fl list"

definition mul :: "env \<Rightarrow> fl \<Rightarrow> fl \<Rightarrow> fl" where
  "mul e a b = fl_mul (rnd e) a b"

definition divide_fl :: "env \<Rightarrow> fl \<Rightarrow> fl \<Rightarrow> fl" where
  "divide_fl e a b = fl_div (rnd e) a b"

definition add :: "env \<Rightarrow> fl \<Rightarrow> fl \<Rightarrow> fl" where
  "add e a b = fl_add (rnd e) a b"

definition sub :: "env \<Rightarrow> fl \<Rightarrow> fl \<Rightarrow> fl" where
  "sub e a b = fl_sub (rnd e) a b"

text \<open>\<^verbatim>\<open>get_bessel(nu)\<close>: the four kernels \<open>(kv0, kv1, iv0, iv1)\<close>.\<close>

definition get_bessel ::
  "env \<Rightarrow> fl \<Rightarrow> (fl \<Rightarrow> fl) \<times> (fl \<Rightarrow> fl) \<times> (fl \<Rightarrow> fl) \<times> (fl \<Rightarrow> fl)" where
  "get_bessel e nu =
     (\<lambda>x. kv e nu x, \<lambda>x. kv e (sub e nu (Fin 1)) x,
      \<lambda>x. iv e nu x, \<lambda>x. iv e (sub e nu (Fin 1)) x)"

definition kv0 :: "env \<Rightarrow> fl \<Rightarrow> fl \<Rightarrow> fl" where
  "kv0 e nu = fst (get_bessel e nu)"

definition kv1 :: "env \<Rightarrow> fl \<Rightarrow> fl \<Rightarrow> fl" where
  "kv1 e nu = fst (snd (get_bessel e nu))"

definition iv0 :: "env \<Rightarrow> fl \<Rightarrow> fl \<Rightarrow> fl" where
  "iv0 e nu = fst (snd (snd (get_bessel e nu)))"

definition iv1 :: "env \<Rightarrow> fl \<Rightarrow> fl \<Rightarrow> fl" where
  "iv1 e nu = snd (snd (snd (get_bessel e nu)))"

section \<open>Arrays\<close>

text \<open>\<^verbatim>\<open>M[r, c] = v\<close> on a two-dimensional array, both indices in range.\<close>

definition set2 :: "fl list list \<Rightarrow> nat \<Rightarrow> nat \<Rightarrow> fl \<Rightarrow> fl list list" where
  "set2 M r c v = M[r := (M ! r)[c := v]]"

text \<open>
  \<^verbatim>\<open>X[:n] = r\<close> with \<open>n \<le> len(X)\<close>: an array of the slice's length is copied,
  an array of length one is broadcast, any other length raises.
\<close>

definition assign_prefix :: "fl list \<Rightarrow> nat \<Rightarrow> fl list \<Rightarrow> error + fl list" where
  "assign_prefix X n r =
     (if length r = n then Inr (r @ drop n X)
      else if length r = 1 then Inr (replicate n (hd r) @ drop n X)
      else Inl (ValueError ''could not broadcast input array''))"

text \<open>Indexing with a possibly negative integer, as numpy does.\<close>

definition py_index :: "'a list \<Rightarrow> int \<Rightarrow> error + 'a" where
  "py_index xs i =
     (if 0 \<le> i \<and> i < int (length xs) then Inr (xs ! nat i)
      else if i < 0 \<and> - int (length xs) \<le> i then Inr (xs ! nat (int (length xs) + i))
      else Inl IndexError)"

text \<open>A list of results is a result: the first error, or all the values.\<close>

fun collect :: "(error + 'a) list \<Rightarrow> error + 'a list" where
  "collect [] = Inr []"
| "collect (Inl e # _) = Inl e"
| "collect (Inr x # rs) = (case collect rs of Inl e \<Rightarrow> Inl e | Inr xs \<Rightarrow> Inr (x # xs))"

section \<open>The pumping condition\<close>

text \<open>Lines 130 to 135: \<open>diff_sr0\<close> and one element of \<open>Qs\<close>.\<close>

definition diff_sr0 :: "env \<Rightarrow> fl list \<Rightarrow> fl list \<Rightarrow> fl" where
  "diff_sr0 e S_part K_part = np_sqrt e (divide_fl e (hd S_part) (hd K_part))"

definition Qs_elem :: "env \<Rightarrow> fl \<Rightarrow> fl \<Rightarrow> fl list \<Rightarrow> fl \<Rightarrow> fl" where
  "Qs_elem e nu dsr0 R_part se =
     (if fl_gt (hd R_part) (Fin 0)
      then mul e (divide_fl e (fl_neg (np_power e se (Fin (- 3 / 2)))) dsr0)
                 (np_power e (hd R_part) (sub e nu (Fin 1)))
      else mul e (divide_fl e (np_power e (divide_fl e (Fin 2) dsr0) nu)
                              (gamma e (sub e (Fin 1) nu)))
                 (np_power e se (sub e (divide_fl e (fl_neg nu) (Fin 2)) (Fin 1))))"

section \<open>The homogeneous aquifer (one disk)\<close>

text \<open>
  Lines 142 to 166. The workspaces \<open>V\<close> and \<open>M\<close> and the result \<open>res\<close> are
  created once and passed from one Laplace variable to the next. \<open>single_step\<close> is the
  body of the loop for the Laplace variable \<open>se\<close> of index \<open>si\<close>, with \<open>q = Qs[si]\<close>.
\<close>

definition head1 :: "env \<Rightarrow> fl \<Rightarrow> fl \<Rightarrow> fl \<Rightarrow> fl \<Rightarrow> fl \<Rightarrow> fl" where
  "head1 e nu Cs As Bs re =
     mul e (np_power e re nu)
       (add e (mul e As (kv0 e nu (mul e Cs re))) (mul e Bs (iv0 e nu (mul e Cs re))))"

definition single_step ::
  "env \<Rightarrow> fl \<Rightarrow> fl \<Rightarrow> fl list \<Rightarrow> fl list \<Rightarrow> fl \<Rightarrow> fl \<Rightarrow> nat
   \<Rightarrow> fl list \<times> fl list list \<times> fl list list
   \<Rightarrow> error + (fl list \<times> fl list list \<times> fl list list)" where
  "single_step e nu dsr0 R_part rad se q si st =
     (case st of (V, M, res) \<Rightarrow>
        let Cs = mul e (np_sqrt e se) dsr0;
            V1 = V[0 := q];
            M1 = (if fl_gt (hd R_part) (Fin 0)
                  then M[0 := [fl_neg (kv1 e nu (mul e Cs (hd R_part))),
                               iv1 e nu (mul e Cs (hd R_part))]]
                  else M);
            M2 = (if fl_less (last R_part) PInf
                  then M1[1 := [kv0 e nu (mul e Cs (last R_part)),
                                iv0 e nu (mul e Cs (last R_part))]]
                  else set2 M1 0 1 (Fin 0))
        in (case linalg_solve e M2 V1 of
              None \<Rightarrow> Inl LinAlgError
            | Some sol \<Rightarrow>
                (case sol of
                   [As, Bs] \<Rightarrow>
                     Inr (V1, M2,
                          res[si := map (\<lambda>(re, old).
                                           if fl_less re (last R_part)
                                           then head1 e nu Cs As Bs re else old)
                                        (zip rad (res ! si))])
                 | _ \<Rightarrow> Inl (ValueError ''wrong number of values to unpack''))))"

fun single_loop ::
  "env \<Rightarrow> fl \<Rightarrow> fl \<Rightarrow> fl list \<Rightarrow> fl list \<Rightarrow> (nat \<times> fl \<times> fl) list
   \<Rightarrow> fl list \<times> fl list list \<times> fl list list
   \<Rightarrow> error + (fl list \<times> fl list list \<times> fl list list)" where
  "single_loop e nu dsr0 R_part rad [] st = Inr st"
| "single_loop e nu dsr0 R_part rad ((si, se, q) # rest) st =
     (case single_step e nu dsr0 R_part rad se q si st of
        Inl err \<Rightarrow> Inl err
      | Inr st' \<Rightarrow> single_loop e nu dsr0 R_part rad rest st')"

section \<open>The equation system of several disks\<close>

text \<open>Lines 180 to 186: the constants of the loop.\<close>

definition Kfrac :: "env \<Rightarrow> fl list \<Rightarrow> fl list" where
  "Kfrac e K_part = map (\<lambda>(a, b). divide_fl e a b) (zip (butlast K_part) (tl K_part))"

definition difsr :: "env \<Rightarrow> fl list \<Rightarrow> fl list \<Rightarrow> fl list" where
  "difsr e S_part K_part = map (\<lambda>(st, k). np_sqrt e (divide_fl e st k)) (zip S_part K_part)"

definition tmp :: "env \<Rightarrow> fl list \<Rightarrow> fl list \<Rightarrow> fl list" where
  "tmp e S_part K_part =
     (let d = difsr e S_part K_part
      in map (\<lambda>(kf, d0, d1). divide_fl e (mul e kf d0) d1)
             (zip (Kfrac e K_part) (zip (butlast d) (tl d))))"

text \<open>
  \<^verbatim>\<open>numpy.searchsorted(a, v)\<close> on an increasing array: the number of elements
  below \<open>v\<close>.
\<close>

definition searchsorted :: "fl list \<Rightarrow> fl \<Rightarrow> nat" where
  "searchsorted a v = length (takeWhile (\<lambda>x. fl_less x v) a)"

definition pos :: "fl list \<Rightarrow> fl list \<Rightarrow> int list" where
  "pos R_part rad = map (\<lambda>v. int (searchsorted R_part v) - 1) rad"

text \<open>
  Lines 197 to 211: the body of the loop over the interfaces, for the interface \<open>i\<close>
  between disk \<open>i\<close> and disk \<open>i + 1\<close>. It writes eight entries of the banded matrix.
\<close>

definition fill_band ::
  "env \<Rightarrow> fl \<Rightarrow> fl list \<Rightarrow> fl list \<Rightarrow> fl list \<Rightarrow> nat \<Rightarrow> fl list list \<Rightarrow> fl list list" where
  "fill_band e nu Cs R_part tmpv i Mb =
     (let a = mul e (Cs ! (i + 1)) (R_part ! (i + 1));
          b = mul e (Cs ! i) (R_part ! (i + 1));
          M1 = set2 Mb 0 (2 * i + 3) (fl_neg (iv0 e nu a));
          M2 = set2 M1 1 (2 * i + 2) (fl_neg (kv0 e nu a));
          M3 = set2 M2 1 (2 * i + 3) (fl_neg (iv1 e nu a));
          M4 = set2 M3 2 (2 * i + 1) (iv0 e nu b);
          M5 = set2 M4 2 (2 * i + 2) (kv1 e nu a);
          M6 = set2 M5 3 (2 * i) (kv0 e nu b);
          M7 = set2 M6 3 (2 * i + 1) (mul e (tmpv ! i) (iv1 e nu b))
      in set2 M7 4 (2 * i) (mul e (fl_neg (tmpv ! i)) (kv1 e nu b)))"

text \<open>Lines 214 to 222: the boundary conditions at the well and at the outer radius.\<close>

definition set_boundary ::
  "env \<Rightarrow> fl \<Rightarrow> fl list \<Rightarrow> fl list \<Rightarrow> nat \<Rightarrow> fl list list \<Rightarrow> fl list list" where
  "set_boundary e nu Cs R_part parts Mb =
     (let M1 = (if fl_gt (hd R_part) (Fin 0)
                then set2 (set2 Mb 2 0 (fl_neg (kv1 e nu (mul e (hd Cs) (hd R_part)))))
                          1 1 (iv1 e nu (mul e (hd Cs) (hd R_part)))
                else Mb)
      in if fl_less (last R_part) PInf
         then set2 (set2 M1 3 (2 * parts - 2) (kv0 e nu (mul e (last Cs) (last R_part))))
                   2 (2 * parts - 1) (iv0 e nu (mul e (last Cs) (last R_part)))
         else set2 (set2 M1 0 (2 * parts - 1) (Fin 0)) 1 (2 * parts - 1) (Fin 0))"

definition assemble ::
  "env \<Rightarrow> fl \<Rightarrow> fl list \<Rightarrow> fl list \<Rightarrow> fl list \<Rightarrow> nat \<Rightarrow> fl list list \<Rightarrow> fl list list" where
  "assemble e nu Cs R_part tmpv parts Mb =
     set_boundary e nu Cs R_part parts (fold (fill_band e nu Cs R_part tmpv) [0..<parts - 1] Mb)"

section \<open>The condition guard\<close>

text \<open>
  Lines 225 to 231. \<open>column_max\<close> is one element of
  \<^verbatim>\<open>np.max(np.abs(Mb), axis=0)\<close>; \<open>Mb_cond\<close> is the array of flags, \<open>cond\<close>
  the indices of the flagged columns, \<open>find_first\<close> the index \<^verbatim>\<open>first\<close>.
\<close>

definition column_max :: "fl list list \<Rightarrow> nat \<Rightarrow> fl" where
  "column_max Mb c = foldl fl_max (fl_abs (hd Mb ! c)) (map (\<lambda>row. fl_abs (row ! c)) (tl Mb))"

definition Mb_cond :: "fl list list \<Rightarrow> fl \<Rightarrow> fl \<Rightarrow> nat \<Rightarrow> bool list" where
  "Mb_cond Mb cut_off_prec inv_cut parts =
     map (\<lambda>c. fl_less (column_max Mb c) cut_off_prec \<or> fl_gt (column_max Mb c) inv_cut) [0..<2 * parts]"

definition cond :: "bool list \<Rightarrow> nat list" where
  "cond flags = filter (\<lambda>c. flags ! c) [0..<length flags]"

definition find_first :: "bool list \<Rightarrow> nat \<Rightarrow> nat" where
  "find_first flags parts = (case cond flags of [] \<Rightarrow> parts | c # _ \<Rightarrow> c div 2)"

section \<open>Solving for the coefficients\<close>

text \<open>
  Lines 236 to 255. The matrix \<open>M_sgl\<close> of the general branch is a view of \<open>Mb\<close>:
  the three entries set to zero through it are set in \<open>Mb\<close>, which is returned with the
  coefficients.
\<close>

definition solve_coeffs ::
  "env \<Rightarrow> nat \<Rightarrow> nat \<Rightarrow> fl list list \<Rightarrow> fl list \<Rightarrow> fl list
   \<Rightarrow> error + (fl list list \<times> fl list)" where
  "solve_coeffs e first parts Mb V X =
     (if first \<le> 1
      then (let M_sgl = [[Mb ! 2 ! 0, Mb ! 1 ! 1], [Mb ! 3 ! 0, Mb ! 2 ! 1]]
            in case linalg_solve e M_sgl (take 2 V) of
                 None \<Rightarrow> Inr (Mb, replicate 2 (Fin 0) @ drop 2 X)
               | Some r \<Rightarrow> (case assign_prefix X 2 r of
                               Inl err \<Rightarrow> Inl err
                             | Inr X' \<Rightarrow> Inr (Mb, X')))
      else (let Mb' = (if first < parts
                       then set2 (set2 (set2 Mb 4 (2 * first - 1) (Fin 0))
                                       3 (2 * first - 1) (Fin 0))
                                 4 (2 * first - 2) (Fin 0)
                       else Mb);
                M_sgl = map (take (2 * first)) Mb'
            in case assign_prefix X (2 * first) (penta_solve e M_sgl (take (2 * first) V)) of
                 Inl err \<Rightarrow> Inl err
               | Inr X' \<Rightarrow> Inr (Mb', X')))"

section \<open>Evaluating the head\<close>

text \<open>Lines 261 to 265, for the radius \<open>re\<close> lying in the disk \<open>p\<close>.\<close>

definition head_elem ::
  "env \<Rightarrow> fl \<Rightarrow> fl list \<Rightarrow> fl \<Rightarrow> fl list \<Rightarrow> fl \<Rightarrow> int \<Rightarrow> error + fl" where
  "head_elem e nu Cs cut_off_prec X re p =
     (case py_index X (2 * p) of
        Inl err \<Rightarrow> Inl err
      | Inr x0 \<Rightarrow>
     (case py_index X (2 * p + 1) of
        Inl err \<Rightarrow> Inl err
      | Inr x1 \<Rightarrow>
     (case py_index Cs p of
        Inl err \<Rightarrow> Inl err
      | Inr c \<Rightarrow>
          (let k0_sub = (if fl_less (fl_abs x0) cut_off_prec then Fin 0
                         else mul e x0 (kv0 e nu (mul e c re)));
               i0_sub = (if fl_less (fl_abs x1) cut_off_prec then Fin 0
                         else mul e x1 (iv0 e nu (mul e c re)))
           in Inr (mul e (np_power e re nu) (add e k0_sub i0_sub))))))"

definition head_row ::
  "env \<Rightarrow> fl \<Rightarrow> fl list \<Rightarrow> fl \<Rightarrow> fl list \<Rightarrow> fl list \<Rightarrow> int list \<Rightarrow> error + fl list" where
  "head_row e nu Cs cut_off_prec X rad ps =
     collect (map (\<lambda>(re, p). head_elem e nu Cs cut_off_prec X re p) (zip rad ps))"

section \<open>One Laplace variable of the multi-disk loop\<close>

text \<open>
  \<open>coefficients\<close> is lines 196 to 256 for one Laplace variable: the matrix is
  assembled in the workspace \<open>Mb\<close>, the guard computes \<^verbatim>\<open>first\<close>, the tail of the
  workspace \<open>X\<close> is set to zero, the system is solved and \<open>X\<close> is cleaned by
  \<^verbatim>\<open>nan_to_num\<close>. The quotient \<^verbatim>\<open>1 / cut_off_prec\<close> is a division of Python
  floats, which raises on a zero divisor. The result is \<^verbatim>\<open>first\<close>, the workspace
  \<open>Mb\<close> and the coefficients used for the head.
\<close>

definition coefficients ::
  "env \<Rightarrow> fl \<Rightarrow> fl list \<Rightarrow> fl list \<Rightarrow> fl list \<Rightarrow> nat \<Rightarrow> fl
   \<Rightarrow> fl list list \<Rightarrow> fl list \<Rightarrow> fl list \<Rightarrow> error + (nat \<times> fl list list \<times> fl list)" where
  "coefficients e nu Cs R_part tmpv parts cut_off_prec Mb V X =
     (let Mb2 = assemble e nu Cs R_part tmpv parts Mb
      in if cut_off_prec = Fin 0 then Inl ZeroDivisionError
         else (let first = find_first
                             (Mb_cond Mb2 cut_off_prec (divide_fl e (Fin 1) cut_off_prec) parts)
                             parts;
                   X1 = take (2 * first) X @ replicate (length X - 2 * first) (Fin 0)
               in (case solve_coeffs e first parts Mb2 V X1 of
                     Inl err \<Rightarrow> Inl err
                   | Inr (Mb3, X2) \<Rightarrow> Inr (first, Mb3, map nan_to_num X2))))"

definition multi_step ::
  "env \<Rightarrow> fl \<Rightarrow> fl list \<Rightarrow> fl list \<Rightarrow> nat \<Rightarrow> fl list \<Rightarrow> fl list \<Rightarrow> int list \<Rightarrow> fl
   \<Rightarrow> fl \<Rightarrow> fl \<Rightarrow> nat
   \<Rightarrow> fl list \<times> fl list list \<times> fl list \<times> fl list list
   \<Rightarrow> error + (fl list \<times> fl list list \<times> fl list \<times> fl list list)" where
  "multi_step e nu R_part rad parts dsr tmpv ps cut_off_prec se q si st =
     (case st of (V, Mb, X, res) \<Rightarrow>
        (let Cs = map (\<lambda>d. mul e (np_sqrt e se) d) dsr;
             V1 = V[0 := q]
         in (case coefficients e nu Cs R_part tmpv parts cut_off_prec Mb V1 X of
               Inl err \<Rightarrow> Inl err
             | Inr (first, Mb3, X3) \<Rightarrow>
                 (case head_row e nu Cs cut_off_prec X3 rad ps of
                    Inl err \<Rightarrow> Inl err
                  | Inr row \<Rightarrow> Inr (V1, Mb3, X3, res[si := row])))))"

fun multi_loop ::
  "env \<Rightarrow> fl \<Rightarrow> fl list \<Rightarrow> fl list \<Rightarrow> nat \<Rightarrow> fl list \<Rightarrow> fl list \<Rightarrow> int list \<Rightarrow> fl
   \<Rightarrow> (nat \<times> fl \<times> fl) list
   \<Rightarrow> fl list \<times> fl list list \<times> fl list \<times> fl list list
   \<Rightarrow> error + (fl list \<times> fl list list \<times> fl list \<times> fl list list)" where
  "multi_loop e nu R_part rad parts dsr tmpv ps cut_off_prec [] st = Inr st"
| "multi_loop e nu R_part rad parts dsr tmpv ps cut_off_prec ((si, se, q) # rest) st =
     (case multi_step e nu R_part rad parts dsr tmpv ps cut_off_prec se q si st of
        Inl err \<Rightarrow> Inl err
      | Inr st' \<Rightarrow> multi_loop e nu R_part rad parts dsr tmpv ps cut_off_prec rest st')"

section \<open>The function \<^verbatim>\<open>grf_laplace\<close>\<close>

text \<open>The initial workspaces: lines 144, 145 and 172 to 177.\<close>

definition zeros :: "nat \<Rightarrow> fl list" where
  "zeros n = replicate n (Fin 0)"

definition eye2 :: "fl list list" where
  "eye2 = [[Fin 1, Fin 0], [Fin 0, Fin 1]]"

definition Mb_init :: "nat \<Rightarrow> fl list list" where
  "Mb_init parts =
     set2 (set2 (replicate 5 (zeros (2 * parts))) 2 0 (Fin 1)) 2 (2 * parts - 1) (Fin 1)"

text \<open>
  The loop of \<^verbatim>\<open>enumerate(s)\<close> runs over the triples of the index, the Laplace
  variable and its pumping condition \<^verbatim>\<open>Qs[si]\<close>.
\<close>

definition enumerate_s :: "fl list \<Rightarrow> fl list \<Rightarrow> (nat \<times> fl \<times> fl) list" where
  "enumerate_s s Qs = zip [0..<length s] (zip s Qs)"

text \<open>
  Lines 270 to 272: the result is cleaned, then scaled to the pumping rate. The power
  \<^verbatim>\<open>lat_ext ** (3.0 - dim)\<close> is a power of Python floats.
\<close>

definition scale_factor :: "env \<Rightarrow> fl \<Rightarrow> fl \<Rightarrow> fl \<Rightarrow> fl \<Rightarrow> error + fl" where
  "scale_factor e rate kw dimf lat_ext =
     (case py_pow e lat_ext (sub e (Fin 3) dimf) of
        None \<Rightarrow> Inl OverflowError
      | Some p \<Rightarrow> Inr (divide_fl e rate (mul e (mul e kw (sph_surf e dimf)) p)))"

definition finish ::
  "env \<Rightarrow> fl list list \<Rightarrow> fl \<Rightarrow> fl \<Rightarrow> fl \<Rightarrow> fl \<Rightarrow> error + fl list list" where
  "finish e res rate kw dimf lat_ext =
     (let cleaned = map (map nan_to_num) res
      in case scale_factor e rate kw dimf lat_ext of
           Inl err \<Rightarrow> Inl err
         | Inr sc \<Rightarrow> Inr (map (map (\<lambda>x. mul e x sc)) cleaned))"

definition run_loops ::
  "env \<Rightarrow> fl \<Rightarrow> fl list \<Rightarrow> fl list \<Rightarrow> fl list \<Rightarrow> fl list \<Rightarrow> fl list \<Rightarrow> fl
   \<Rightarrow> error + fl list list" where
  "run_loops e nu s rad S_part K_part R_part cut_off_prec =
     (let parts = length K_part;
          res = replicate (length s) (zeros (length rad));
          dsr0 = diff_sr0 e S_part K_part;
          Qs = map (Qs_elem e nu dsr0 R_part) s
      in if parts = 1
         then (case single_loop e nu dsr0 R_part rad (enumerate_s s Qs) (zeros 2, eye2, res) of
                 Inl err \<Rightarrow> Inl err
               | Inr (V, M, res') \<Rightarrow> Inr res')
         else (case multi_loop e nu R_part rad parts (difsr e S_part K_part)
                      (tmp e S_part K_part) (pos R_part rad) cut_off_prec
                      (enumerate_s s Qs)
                      (zeros (2 * parts), Mb_init parts, zeros (2 * parts), res) of
                 Inl err \<Rightarrow> Inl err
               | Inr (V, Mb, X, res') \<Rightarrow> Inr res'))"

definition grf_laplace ::
  "env \<Rightarrow> fl list \<Rightarrow> fl list \<Rightarrow> fl list \<Rightarrow> fl list \<Rightarrow> fl list \<Rightarrow> fl \<Rightarrow> fl \<Rightarrow> fl
   \<Rightarrow> fl option \<Rightarrow> fl \<Rightarrow> error + fl list list" where
  "grf_laplace e s rad S_part K_part R_part dimf lat_ext rate K_well cut_off_prec =
     (let nu = sub e (Fin 1) (divide_fl e dimf (Fin 2))
      in case validate rad S_part K_part R_part dimf lat_ext K_well of
           Inl err \<Rightarrow> Inl err
         | Inr kw \<Rightarrow>
             (case run_loops e nu s rad S_part K_part R_part cut_off_prec of
                Inl err \<Rightarrow> Inl err
              | Inr res \<Rightarrow> finish e res rate kw dimf lat_ext))"

section \<open>Vocabulary of the specification\<close>

text \<open>The comparison \<open>\<le>\<close> of doubles: false on NaN.\<close>

fun fl_le :: "fl \<Rightarrow> fl \<Rightarrow> bool" where
  "fl_le NaN _ = False"
| "fl_le _ NaN = False"
| "fl_le (Fin a) (Fin b) = (a \<le> b)"
| "fl_le (Fin _) PInf = True"
| "fl_le (Fin _) NInf = False"
| "fl_le PInf PInf = True"
| "fl_le PInf _ = False"
| "fl_le NInf _ = True"

text \<open>A radius lies in the half-open interval \<open>(R\<^sub>0, R\<^sub>N]\<close>.\<close>

definition in_range :: "fl list \<Rightarrow> fl \<Rightarrow> bool" where
  "in_range R_part r = (fl_less (hd R_part) r \<and> fl_le r (last R_part))"

text \<open>
  The validation constraints other than the one on the radii: matching lengths with at
  least one disk, a non-negative well radius, increasing boundaries, positive
  conductivities and storativities, a dimension in \<open>(0, 3]\<close>, a positive lateral extent
  and a positive resolved well conductivity.
\<close>

definition others_valid ::
  "fl list \<Rightarrow> fl list \<Rightarrow> fl list \<Rightarrow> fl \<Rightarrow> fl \<Rightarrow> fl option \<Rightarrow> bool" where
  "others_valid S_part K_part R_part dimf lat_ext K_well =
     (length S_part = length K_part \<and> length R_part = length K_part + 1 \<and> 1 \<le> length K_part
      \<and> fl_le (Fin 0) (hd R_part) \<and> radii_sorted R_part
      \<and> list_all (\<lambda>con. fl_less (Fin 0) con) K_part
      \<and> list_all (\<lambda>stor. fl_less (Fin 0) stor) S_part
      \<and> fl_less (Fin 0) dimf \<and> fl_le dimf (Fin 3) \<and> fl_less (Fin 0) lat_ext
      \<and> (case resolve_K_well K_part K_well of Inl _ \<Rightarrow> False | Inr kw \<Rightarrow> fl_less (Fin 0) kw))"

text \<open>
  The input-validation errors: the \<^verbatim>\<open>ValueError\<close>s that lines 108 to 125 raise,
  those of the reductions on line 114 included.
\<close>

definition input_error_messages :: "string list" where
  "input_error_messages =
     [''R_part, S_part and K_part need matching lengths.'',
      ''The wellradius needs to be >= 0.'',
      ''The radii values need to be sorted.'',
      ''The given radii need to be in the given range.'',
      ''The Conductivity needs to be positiv.'',
      ''The Storage needs to be positiv.'',
      ''The dimension needs to be positiv and <= 3.'',
      ''The lateral extend needs to be positiv.'',
      ''The well conductivity needs to be positiv.'',
      ''zero-size array to reduction operation minimum which has no identity'',
      ''zero-size array to reduction operation maximum which has no identity'']"

fun raises_input_error :: "error + 'a \<Rightarrow> bool" where
  "raises_input_error (Inl (ValueError msg)) = (msg \<in> set input_error_messages)"
| "raises_input_error _ = False"

text \<open>
  An environment for runs that do not depend on the values of the external routines:
  exact arithmetic, constant kernels, solvers that return the right-hand side.
\<close>

definition env_unit :: env where
  "env_unit = \<lparr> rnd = Fin, np_sqrt = (\<lambda>x. x), np_power = (\<lambda>a b. Fin 1),
                py_pow = (\<lambda>a b. Some (Fin 1)), kv = (\<lambda>nu x. Fin 1), iv = (\<lambda>nu x. Fin 1),
                gamma = (\<lambda>x. Fin 1), sph_surf = (\<lambda>d. Fin 1),
                linalg_solve = (\<lambda>M V. Some V), penta_solve = (\<lambda>M V. V) \<rparr>"

text \<open>The errors that can be raised after the validation, on lines 128 to 272.\<close>

fun late_error :: "error \<Rightarrow> bool" where
  "late_error (ValueError msg) =
     (msg = ''wrong number of values to unpack'' \<or> msg = ''could not broadcast input array'')"
| "late_error _ = True"

text \<open>Some requested radius lies outside \<open>(R\<^sub>0, R\<^sub>N]\<close>.\<close>

definition radius_outside :: "fl list \<Rightarrow> fl list \<Rightarrow> bool" where
  "radius_outside R_part rad = list_ex (\<lambda>r. \<not> in_range R_part r) rad"

text \<open>A matrix has the shape \<open>[n, m]\<close>.\<close>

definition has_shape :: "fl list list \<Rightarrow> nat \<Rightarrow> nat \<Rightarrow> bool" where
  "has_shape res n m = (length res = n \<and> list_all (\<lambda>row. length row = m) res)"

section \<open>Environments for concrete runs\<close>

text \<open>
  A solver for two equations: Gaussian elimination with partial pivoting, as LAPACK's
  \<^verbatim>\<open>gesv\<close> behind \<^verbatim>\<open>numpy.linalg.solve\<close> does it, which reports a singular matrix
  when a pivot is exactly zero.
\<close>

definition elim2 ::
  "(real \<Rightarrow> fl) \<Rightarrow> fl \<Rightarrow> fl \<Rightarrow> fl \<Rightarrow> fl \<Rightarrow> fl \<Rightarrow> fl \<Rightarrow> fl list option" where
  "elim2 r a b v c d w =
     (if a = Fin 0 then None
      else (let l = fl_div r c a;
                d' = fl_sub r d (fl_mul r l b);
                w' = fl_sub r w (fl_mul r l v)
            in if d' = Fin 0 then None
               else (let y = fl_div r w' d'
                     in Some [fl_div r (fl_sub r v (fl_mul r b y)) a, y])))"

definition gauss2 :: "(real \<Rightarrow> fl) \<Rightarrow> fl list list \<Rightarrow> fl list \<Rightarrow> fl list option" where
  "gauss2 r M V =
     (case (M, V) of
        ([[a, b], [c, d]], [v, w]) \<Rightarrow>
          (if fl_less (fl_abs a) (fl_abs c) then elim2 r c d w a b v else elim2 r a b v c d w)
      | _ \<Rightarrow> None)"

text \<open>
  The library at the arguments of the run \<^verbatim>\<open>s = [1e6]\<close>, \<^verbatim>\<open>dim = 2\<close>,
  \<^verbatim>\<open>K_part = S_part = [1]\<close>, \<^verbatim>\<open>R_part = [1, 2]\<close>: the square root of \<open>10\<^sup>6\<close> is
  \<open>1000\<close>, \<open>(10\<^sup>6)\<^sup>-\<^sup>1\<^sup>.\<^sup>5 = 10\<^sup>-\<^sup>9\<close>, and at the arguments \<open>1000\<close> and
  \<open>2000\<close> the kernels \<^verbatim>\<open>kv\<close> underflow to zero and the kernels \<^verbatim>\<open>iv\<close> overflow to
  infinity. The surface of the unit circle is \<open>2\<pi>\<close>.
\<close>

definition env_underflow :: env where
  "env_underflow =
     \<lparr> rnd = Fin,
       np_sqrt = (\<lambda>x. if x = Fin (10 ^ 6) then Fin 1000 else x),
       np_power = (\<lambda>a b. if a = Fin (10 ^ 6) \<and> b = Fin (- 3 / 2) then Fin (1 / 10 ^ 9)
                          else Fin 1),
       py_pow = (\<lambda>a b. Some (Fin 1)),
       kv = (\<lambda>nu x. Fin 0),
       iv = (\<lambda>nu x. PInf),
       gamma = (\<lambda>x. Fin 1),
       sph_surf = (\<lambda>d. Fin (6283185307179586 / 10 ^ 15)),
       linalg_solve = gauss2 Fin,
       penta_solve = (\<lambda>M V. V) \<rparr>"

text \<open>A double is finite.\<close>

fun is_fin :: "fl \<Rightarrow> bool" where
  "is_fin (Fin _) = True"
| "is_fin _ = False"

text \<open>
  The library at the arguments of the run \<^verbatim>\<open>s = [1]\<close>, \<^verbatim>\<open>dim = 2\<close>,
  unit conductivities and storativities and the boundaries \<^verbatim>\<open>[0, 2]\<close> or
  \<^verbatim>\<open>[0, 2, 100]\<close>: the kernels at the argument \<open>2\<close> are \<open>K\<^sub>0(2) = 0.11389\<close>,
  \<open>K\<^sub>1(2) = 0.13987\<close>, \<open>I\<^sub>0(2) = 2.27959\<close> and \<open>I\<^sub>1(2) = 1.59064\<close>, at the argument
  \<open>100\<close> they are \<open>K\<^sub>0(100) = 4.66e-45\<close> and \<open>I\<^sub>0(100) = 1.07e42\<close>; every power
  and the Gamma value are \<open>1\<close>, the surface of the unit circle is \<open>2\<pi>\<close>.
\<close>

definition env_point_source :: env where
  "env_point_source =
     \<lparr> rnd = Fin,
       np_sqrt = (\<lambda>x. x),
       np_power = (\<lambda>a b. Fin 1),
       py_pow = (\<lambda>a b. Some (Fin 1)),
       kv = (\<lambda>nu x. if x = Fin 100 then Fin (466 / 10 ^ 47)
                      else if nu = Fin 0 then Fin (11389 / 10 ^ 5) else Fin (13987 / 10 ^ 5)),
       iv = (\<lambda>nu x. if x = Fin 100 then Fin (107 * 10 ^ 40)
                      else if nu = Fin 0 then Fin (227959 / 10 ^ 5) else Fin (159064 / 10 ^ 5)),
       gamma = (\<lambda>x. Fin 1),
       sph_surf = (\<lambda>d. Fin (6283185307179586 / 10 ^ 15)),
       linalg_solve = gauss2 Fin,
       penta_solve = (\<lambda>M V. V) \<rparr>"

text \<open>
  The library at the arguments of the run \<^verbatim>\<open>s = [2500]\<close>, \<^verbatim>\<open>dim = 2\<close>,
  \<^verbatim>\<open>K_part = S_part = [1, 1]\<close>, \<^verbatim>\<open>R_part = [1, 2, 3]\<close>: the square root of
  \<open>2500\<close> is \<open>50\<close>, \<open>2500\<^sup>-\<^sup>1\<^sup>.\<^sup>5 = 1/125000\<close>, and the kernels of order \<open>0\<close> and
  \<open>-1\<close> at the arguments \<open>50\<close>, \<open>100\<close> and \<open>150\<close> are given to three digits
  (\<open>K\<^sub>1(50) = 3.44e-23\<close>, \<open>I\<^sub>1(50) = 2.90e20\<close>, \<open>K\<^sub>0(100) = 4.66e-45\<close>,
  \<open>I\<^sub>0(100) = 1.07e42\<close>, and so on).
\<close>

definition env_large :: env where
  "env_large =
     \<lparr> rnd = Fin,
       np_sqrt = (\<lambda>x. if x = Fin 2500 then Fin 50 else x),
       np_power = (\<lambda>a b. if a = Fin 2500 \<and> b = Fin (- 3 / 2) then Fin (1 / 125000)
                          else Fin 1),
       py_pow = (\<lambda>a b. Some (Fin 1)),
       kv = (\<lambda>nu x. if nu = Fin 0
                      then (if x = Fin 50 then Fin (341 / 10 ^ 25)
                            else if x = Fin 100 then Fin (466 / 10 ^ 47)
                            else Fin (73 / 10 ^ 68))
                      else (if x = Fin 50 then Fin (344 / 10 ^ 25)
                            else if x = Fin 100 then Fin (468 / 10 ^ 47)
                            else Fin (73 / 10 ^ 68))),
       iv = (\<lambda>nu x. if nu = Fin 0
                      then (if x = Fin 50 then Fin (293 * 10 ^ 18)
                            else if x = Fin 100 then Fin (107 * 10 ^ 40)
                            else Fin (45 * 10 ^ 62))
                      else (if x = Fin 50 then Fin (290 * 10 ^ 18)
                            else if x = Fin 100 then Fin (1068 * 10 ^ 39)
                            else Fin (45 * 10 ^ 62))),
       gamma = (\<lambda>x. Fin 1),
       sph_surf = (\<lambda>d. Fin (6283185307179586 / 10 ^ 15)),
       linalg_solve = gauss2 Fin,
       penta_solve = (\<lambda>M V. V) \<rparr>"

text \<open>
  A column of the assembled matrix crosses a threshold of the condition guard: its
  largest absolute entry is below \<^verbatim>\<open>cut_off_prec\<close> or above its reciprocal.
\<close>

definition flagged :: "env \<Rightarrow> fl list list \<Rightarrow> fl \<Rightarrow> nat \<Rightarrow> bool" where
  "flagged e Mb cut_off_prec col =
     (fl_less (column_max Mb col) cut_off_prec
      \<or> fl_less (divide_fl e (Fin 1) cut_off_prec) (column_max Mb col))"




text \<open>
  An environment with constant kernels whose banded solver returns the vector of ones:
  every unknown of every disk is then present in the head.
\<close>

definition env_ones :: env where
  "env_ones = \<lparr> rnd = Fin, np_sqrt = (\<lambda>x. x), np_power = (\<lambda>a b. Fin 1),
                py_pow = (\<lambda>a b. Some (Fin 1)), kv = (\<lambda>nu x. Fin 1), iv = (\<lambda>nu x. Fin 1),
                gamma = (\<lambda>x. Fin 1), sph_surf = (\<lambda>d. Fin 1),
                linalg_solve = (\<lambda>M V. Some V), penta_solve = (\<lambda>M V. map (\<lambda>x. Fin 1) V) \<rparr>"

section \<open>Vocabulary for the reuse of the workspaces\<close>

text \<open>Two matrices have the same dimensions.\<close>

definition same_dims :: "fl list list \<Rightarrow> fl list list \<Rightarrow> bool" where
  "same_dims M M' = (length M = length M' \<and> (\<forall>r<length M. length (M ! r) = length (M' ! r)))"

text \<open>
  An operation on a matrix is a masked write: it keeps the dimensions, it overwrites the
  entries at the positions \<open>W\<close> with values that do not depend on the matrix, and it
  leaves every other entry as it is.
\<close>

definition masked :: "(fl list list \<Rightarrow> fl list list) \<Rightarrow> (nat \<Rightarrow> nat \<Rightarrow> bool) \<Rightarrow> bool" where
  "masked g W =
     (\<exists>f. \<forall>M. same_dims (g M) M
              \<and> (\<forall>r c. r < length M \<longrightarrow> c < length (M ! r) \<longrightarrow>
                     g M ! r ! c = (if W r c then f r c else M ! r ! c)))"

text \<open>The positions that the assembly of the banded matrix writes.\<close>

definition W_fill :: "nat \<Rightarrow> nat \<Rightarrow> nat \<Rightarrow> bool" where
  "W_fill i r c =
     (r = 0 \<and> c = 2 * i + 3 \<or> r = 1 \<and> c = 2 * i + 2 \<or> r = 1 \<and> c = 2 * i + 3
      \<or> r = 2 \<and> c = 2 * i + 1 \<or> r = 2 \<and> c = 2 * i + 2 \<or> r = 3 \<and> c = 2 * i
      \<or> r = 3 \<and> c = 2 * i + 1 \<or> r = 4 \<and> c = 2 * i)"

definition W_boundary :: "nat \<Rightarrow> fl list \<Rightarrow> nat \<Rightarrow> nat \<Rightarrow> bool" where
  "W_boundary parts R_part r c =
     (fl_gt (hd R_part) (Fin 0) \<and> (r = 2 \<and> c = 0 \<or> r = 1 \<and> c = 1)
      \<or> fl_less (last R_part) PInf \<and> (r = 3 \<and> c = 2 * parts - 2 \<or> r = 2 \<and> c = 2 * parts - 1)
      \<or> \<not> fl_less (last R_part) PInf \<and> (r = 0 \<and> c = 2 * parts - 1 \<or> r = 1 \<and> c = 2 * parts - 1))"

definition W_assemble :: "nat \<Rightarrow> fl list \<Rightarrow> nat \<Rightarrow> nat \<Rightarrow> bool" where
  "W_assemble parts R_part r c = ((\<exists>i<parts - 1. W_fill i r c) \<or> W_boundary parts R_part r c)"

text \<open>
  The state of the workspaces between two Laplace variables of the multi-disk loop: the
  right-hand side is zero after its first entry, the coefficient vector has its length,
  and the banded matrix has the initial values wherever the assembly does not write.
\<close>

definition inv_multi :: "nat \<Rightarrow> fl list \<Rightarrow> fl list \<Rightarrow> fl list list \<Rightarrow> fl list \<Rightarrow> bool" where
  "inv_multi parts R_part V Mb X =
     (length V = 2 * parts \<and> (\<forall>j. 0 < j \<and> j < 2 * parts \<longrightarrow> V ! j = Fin 0)
      \<and> length X = 2 * parts
      \<and> same_dims Mb (Mb_init parts)
      \<and> (\<forall>r c. r < length Mb \<longrightarrow> c < length (Mb ! r) \<longrightarrow> \<not> W_assemble parts R_part r c \<longrightarrow>
             Mb ! r ! c = Mb_init parts ! r ! c))"

text \<open>
  The row of one Laplace variable, computed on fresh workspaces: what a call with the
  single Laplace variable \<open>se\<close> computes for it.
\<close>

definition row_of_multi ::
  "env \<Rightarrow> fl \<Rightarrow> fl list \<Rightarrow> fl list \<Rightarrow> nat \<Rightarrow> fl list \<Rightarrow> fl list \<Rightarrow> int list \<Rightarrow> fl
   \<Rightarrow> fl \<Rightarrow> fl \<Rightarrow> error + fl list" where
  "row_of_multi e nu R_part rad parts dsr tmpv ps cut_off_prec se q =
     (case multi_step e nu R_part rad parts dsr tmpv ps cut_off_prec se q 0
             (zeros (2 * parts), Mb_init parts, zeros (2 * parts), [zeros (length rad)]) of
        Inl err \<Rightarrow> Inl err
      | Inr (V, Mb, X, res) \<Rightarrow> Inr (res ! 0))"

definition row_of_single ::
  "env \<Rightarrow> fl \<Rightarrow> fl \<Rightarrow> fl list \<Rightarrow> fl list \<Rightarrow> fl \<Rightarrow> fl \<Rightarrow> error + fl list" where
  "row_of_single e nu dsr0 R_part rad se q =
     (case single_step e nu dsr0 R_part rad se q 0 (zeros 2, eye2, [zeros (length rad)]) of
        Inl err \<Rightarrow> Inl err
      | Inr (V, M, res) \<Rightarrow> Inr (res ! 0))"

text \<open>The state of the workspaces between two Laplace variables of the one-disk loop.\<close>

definition inv_single :: "fl list \<Rightarrow> fl list \<Rightarrow> fl list list \<Rightarrow> bool" where
  "inv_single R_part V M =
     (length V = 2 \<and> V ! 1 = Fin 0 \<and> length M = 2 \<and> length (M ! 0) = 2
      \<and> (\<not> fl_gt (hd R_part) (Fin 0) \<longrightarrow> M ! 0 = [Fin 1, Fin 0])
      \<and> (\<not> fl_less (last R_part) PInf \<longrightarrow> M ! 1 = [Fin 0, Fin 1]))"

section \<open>Validation of the lengths\<close>

lemma validate_lengths:
  assumes "resolve_K_well K_part K_well = Inr kw"
    and "\<not> (int (length R_part) - 1 = int (length S_part)
            \<and> length S_part = length K_part \<and> length K_part > 0)"
  shows "validate rad S_part K_part R_part dimf lat_ext K_well =
           Inl (ValueError ''R_part, S_part and K_part need matching lengths.'')"
  unfolding validate_def using assms by simp

text \<open>
  Claim C8. Mismatching lengths are to raise the input-validation error, the empty
  \<^verbatim>\<open>K_part\<close> included. With no disk and \<^verbatim>\<open>K_well\<close> left at \<^verbatim>\<open>None\<close>,
  line 105 reads \<^verbatim>\<open>K_part[0]\<close> before the lengths are checked on line 108: the call
  ends with \<^verbatim>\<open>IndexError\<close>, not with the \<^verbatim>\<open>ValueError\<close> of the validation.
\<close>

theorem C8_empty_K_part_raises_IndexError:
  "grf_laplace e s rad [] [] [Fin 0] dimf lat_ext rate None cut_off_prec = Inl IndexError"
  by (simp add: grf_laplace_def validate_def resolve_K_well_def)

section \<open>Ordering of doubles\<close>

lemma fl_less_min: "fl_less c (fl_min a b) = (fl_less c a \<and> fl_less c b)"
  by (cases a; cases b; cases c) (auto simp: fl_min_def)

lemma fl_less_foldl_min:
  "fl_less c (foldl fl_min x ys) = (fl_less c x \<and> (\<forall>y\<in>set ys. fl_less c y))"
  by (induction ys arbitrary: x) (auto simp: fl_less_min)

lemma fl_max_not_nan: "\<not> is_nan a \<Longrightarrow> \<not> is_nan b \<Longrightarrow> \<not> is_nan (fl_max a b)"
  by (simp add: fl_max_def)

lemma fl_max_gt:
  "\<not> is_nan a \<Longrightarrow> \<not> is_nan b \<Longrightarrow> fl_less c (fl_max a b) = (fl_less c a \<or> fl_less c b)"
  by (cases a; cases b; cases c) (auto simp: fl_max_def)

lemma fl_gt_foldl_max:
  "\<not> is_nan x \<Longrightarrow> \<forall>y\<in>set ys. \<not> is_nan y \<Longrightarrow>
   fl_less c (foldl fl_max x ys) = (fl_less c x \<or> (\<exists>y\<in>set ys. fl_less c y))"
  by (induction ys arbitrary: x) (auto simp: fl_max_gt fl_max_not_nan)

lemma fl_less_not_nan: "fl_less a b \<Longrightarrow> \<not> is_nan a \<and> \<not> is_nan b"
  by (cases a; cases b) auto

lemma fl_le_iff: "\<not> is_nan a \<Longrightarrow> \<not> is_nan b \<Longrightarrow> fl_le a b = (\<not> fl_less b a)"
  by (cases a; cases b) auto

lemma fl_le_not_nan: "fl_le a b \<Longrightarrow> \<not> is_nan a \<and> \<not> is_nan b"
  by (cases a; cases b) auto

text \<open>The check of the radii on a non-empty array.\<close>

lemma check_rad_iff:
  assumes ne: "rad \<noteq> []" and rn: "\<not> is_nan (last R_part)"
  shows "check_rad rad R_part =
           (if \<forall>r\<in>set rad. in_range R_part r then Inr ()
            else Inl (ValueError ''The given radii need to be in the given range.''))"
proof -
  from ne obtain x ys where rad: "rad = x # ys" by (cases rad) auto
  have mn: "np_min rad = Inr (foldl fl_min x ys)" by (simp add: np_min_def rad)
  have mx: "np_max rad = Inr (foldl fl_max x ys)" by (simp add: np_max_def rad)
  show ?thesis
  proof (cases "\<forall>r\<in>set rad. fl_less (hd R_part) r")
    case False
    then have "\<not> fl_less (hd R_part) (foldl fl_min x ys)"
      by (simp add: fl_less_foldl_min rad)
    moreover from False have "\<not> (\<forall>r\<in>set rad. in_range R_part r)"
      by (auto simp: in_range_def)
    ultimately show ?thesis by (simp add: check_rad_def mn fl_gt_def)
  next
    case True
    then have lo: "fl_less (hd R_part) (foldl fl_min x ys)"
      by (simp add: fl_less_foldl_min rad)
    from True have nn: "\<not> is_nan x" "\<forall>y\<in>set ys. \<not> is_nan y"
      using fl_less_not_nan by (auto simp: rad)
    have hi: "fl_less (last R_part) (foldl fl_max x ys) = (\<exists>r\<in>set rad. fl_less (last R_part) r)"
      using fl_gt_foldl_max[OF nn] by (simp add: rad)
    have "(\<forall>r\<in>set rad. in_range R_part r) = (\<not> (\<exists>r\<in>set rad. fl_less (last R_part) r))"
      using True nn rn fl_le_iff by (auto simp: in_range_def rad)
    then show ?thesis using lo hi by (simp add: check_rad_def mn mx fl_gt_def)
  qed
qed


lemma fl_le_not_less: "fl_le a b \<Longrightarrow> \<not> fl_less b a"
  by (cases a; cases b) auto

lemma radii_sorted_Cons2:
  "radii_sorted (x # y # zs) = (fl_less x y \<and> radii_sorted (y # zs))"
  by (simp add: radii_sorted_def)

lemma radii_sorted_last_not_nan:
  "radii_sorted (x # y # zs) \<Longrightarrow> \<not> is_nan (last (x # y # zs))"
proof (induction zs arbitrary: x y)
  case Nil
  then show ?case using fl_less_not_nan[of x y] by (simp add: radii_sorted_Cons2)
next
  case (Cons z zs)
  from Cons.prems have "radii_sorted (y # z # zs)" by (simp only: radii_sorted_Cons2)
  from Cons.IH[OF this] show ?case by simp
qed

lemma others_valid_last_not_nan:
  assumes "others_valid S_part K_part R_part dimf lat_ext K_well"
  shows "\<not> is_nan (last R_part)"
proof -
  have a: "radii_sorted R_part" and b: "length R_part = length K_part + 1"
    and c: "1 \<le> length K_part"
    using assms by (simp_all add: others_valid_def)
  from b c obtain x y zs where "R_part = x # y # zs"
    by (cases R_part; cases "tl R_part") auto
  with a show ?thesis using radii_sorted_last_not_nan by blast
qed

lemma validate_others_valid:
  assumes ov: "others_valid S_part K_part R_part dimf lat_ext K_well"
    and kw: "resolve_K_well K_part K_well = Inr kw"
  shows "validate rad S_part K_part R_part dimf lat_ext K_well =
           (case check_rad rad R_part of Inl err \<Rightarrow> Inl err | Inr u \<Rightarrow> Inr kw)"
proof -
  have l1: "length S_part = length K_part" "length R_part = length K_part + 1"
    "1 \<le> length K_part"
    using ov unfolding others_valid_def by blast+
  have len: "int (length R_part) - 1 = int (length S_part)" "length S_part = length K_part"
    "length K_part > 0"
    using l1 by linarith+
  have r0: "\<not> fl_less (hd R_part) (Fin 0)"
    using ov fl_le_not_less unfolding others_valid_def by blast
  have srt: "radii_sorted R_part" using ov unfolding others_valid_def by blast
  have k: "list_all (\<lambda>con. fl_gt con (Fin 0)) K_part"
    using ov unfolding others_valid_def fl_gt_def by blast
  have s: "list_all (\<lambda>stor. fl_gt stor (Fin 0)) S_part"
    using ov unfolding others_valid_def fl_gt_def by blast
  have d: "fl_gt dimf (Fin 0)" "\<not> fl_gt dimf (Fin 3)"
    using ov fl_le_not_less unfolding others_valid_def fl_gt_def by blast+
  have l: "fl_gt lat_ext (Fin 0)" using ov unfolding others_valid_def fl_gt_def by blast
  have w: "fl_gt kw (Fin 0)" using ov kw unfolding others_valid_def fl_gt_def by simp
  show ?thesis
    unfolding validate_def using kw len r0 srt k s d l w
    by (simp split: sum.splits)
qed

section \<open>Errors raised after the validation\<close>

lemma late_error_not_input: "late_error err \<Longrightarrow> \<not> raises_input_error (Inl err)"
  by (cases err) (auto simp: input_error_messages_def)

lemma single_step_error:
  "single_step e nu dsr0 R_part rad se q si st = Inl err \<Longrightarrow> late_error err"
  unfolding single_step_def
  by (auto simp: Let_def split: prod.splits option.splits list.splits)

lemma single_loop_error:
  "single_loop e nu dsr0 R_part rad xs st = Inl err \<Longrightarrow> late_error err"
proof (induction xs arbitrary: st)
  case Nil
  then show ?case by simp
next
  case (Cons x xs)
  obtain si se q where x: "x = (si, se, q)" by (cases x) auto
  show ?case
  proof (cases "single_step e nu dsr0 R_part rad se q si st")
    case (Inl a)
    with Cons.prems x have "a = err" by simp
    with Inl show ?thesis using single_step_error by blast
  next
    case (Inr st')
    with Cons.prems x have "single_loop e nu dsr0 R_part rad xs st' = Inl err" by simp
    then show ?thesis by (rule Cons.IH)
  qed
qed

lemma assign_prefix_error: "assign_prefix X n r = Inl err \<Longrightarrow> late_error err"
  by (auto simp: assign_prefix_def split: if_splits)

lemma py_index_error: "py_index xs i = Inl err \<Longrightarrow> late_error err"
  by (auto simp: py_index_def split: if_splits)

lemma collect_error: "collect rs = Inl err \<Longrightarrow> Inl err \<in> set rs"
  by (induction rs rule: collect.induct) (auto split: sum.splits)

lemma head_elem_error: "head_elem e nu Cs c X re p = Inl err \<Longrightarrow> late_error err"
  unfolding head_elem_def
  by (auto simp: Let_def split: sum.splits dest: py_index_error)

lemma head_row_error: "head_row e nu Cs c X rad ps = Inl err \<Longrightarrow> late_error err"
  unfolding head_row_def
  by (auto dest!: collect_error dest: head_elem_error[OF sym])

lemma solve_coeffs_error: "solve_coeffs e first parts Mb V X = Inl err \<Longrightarrow> late_error err"
  unfolding solve_coeffs_def
  by (auto simp: Let_def split: if_splits option.splits sum.splits dest: assign_prefix_error)

lemma coefficients_error:
  "coefficients e nu Cs R_part tmpv parts c Mb V X = Inl err \<Longrightarrow> late_error err"
  unfolding coefficients_def
  by (auto simp: Let_def split: if_splits sum.splits prod.splits dest: solve_coeffs_error)

lemma multi_step_error:
  "multi_step e nu R_part rad parts dsr tmpv ps c se q si st = Inl err \<Longrightarrow> late_error err"
  unfolding multi_step_def
  by (auto simp: Let_def split: sum.splits prod.splits
           dest: coefficients_error head_row_error)

lemma multi_loop_error:
  "multi_loop e nu R_part rad parts dsr tmpv ps c xs st = Inl err \<Longrightarrow> late_error err"
proof (induction xs arbitrary: st)
  case Nil
  then show ?case by simp
next
  case (Cons x xs)
  obtain si se q where x: "x = (si, se, q)" by (cases x) auto
  show ?case
  proof (cases "multi_step e nu R_part rad parts dsr tmpv ps c se q si st")
    case (Inl a)
    with Cons.prems x have "a = err" by simp
    with Inl show ?thesis using multi_step_error by blast
  next
    case (Inr st')
    with Cons.prems x
    have "multi_loop e nu R_part rad parts dsr tmpv ps c xs st' = Inl err" by simp
    then show ?thesis by (rule Cons.IH)
  qed
qed

lemma run_loops_error:
  "run_loops e nu s rad S_part K_part R_part c = Inl err \<Longrightarrow> late_error err"
  unfolding run_loops_def
  by (auto simp: Let_def split: if_splits sum.splits prod.splits
           dest: single_loop_error multi_loop_error)

lemma finish_error: "finish e res rate kw dimf lat_ext = Inl err \<Longrightarrow> late_error err"
  unfolding finish_def scale_factor_def
  by (auto simp: Let_def split: sum.splits option.splits)

lemma grf_laplace_late_error:
  assumes "validate rad S_part K_part R_part dimf lat_ext K_well = Inr kw"
    and "grf_laplace e s rad S_part K_part R_part dimf lat_ext rate K_well c = Inl err"
  shows "late_error err"
  using assms unfolding grf_laplace_def
  by (auto simp: Let_def split: sum.splits dest: run_loops_error finish_error)

section \<open>The check of the radii\<close>

lemma fl_less_trans: "fl_less a b \<Longrightarrow> fl_less b c \<Longrightarrow> fl_less a c"
  by (cases a; cases b; cases c) auto

lemma radii_sorted_hd_last:
  "radii_sorted (x # y # zs) \<Longrightarrow> fl_less x (last (x # y # zs))"
proof (induction zs arbitrary: x y)
  case Nil
  then show ?case by (simp add: radii_sorted_Cons2)
next
  case (Cons z zs)
  from Cons.prems have xy: "fl_less x y" and r: "radii_sorted (y # z # zs)"
    by (simp_all only: radii_sorted_Cons2)
  from Cons.IH[OF r] have "fl_less y (last (y # z # zs))" .
  with xy have "fl_less x (last (y # z # zs))" by (rule fl_less_trans)
  then show ?case by simp
qed

lemma fl_le_refl: "\<not> is_nan a \<Longrightarrow> fl_le a a"
  by (cases a) auto

lemma others_valid_last_in_range:
  assumes "others_valid S_part K_part R_part dimf lat_ext K_well"
  shows "in_range R_part (last R_part)"
proof -
  have a: "radii_sorted R_part" and b: "length R_part = length K_part + 1"
    and c: "1 \<le> length K_part"
    using assms by (simp_all add: others_valid_def)
  from b c obtain x y zs where R: "R_part = x # y # zs"
    by (cases R_part; cases "tl R_part") auto
  have "fl_less (hd R_part) (last R_part)"
    using radii_sorted_hd_last a unfolding R by simp
  moreover have "fl_le (last R_part) (last R_part)"
    using others_valid_last_not_nan[OF assms] by (rule fl_le_refl)
  ultimately show ?thesis by (simp add: in_range_def)
qed

lemma hd_not_in_range: "\<not> in_range R_part (hd R_part)"
  by (cases "hd R_part") (auto simp: in_range_def)

text \<open>
  Claim C3, amended. When the other validation constraints hold and at least one radius
  is requested, \<^verbatim>\<open>grf_laplace\<close> raises an input-validation error if and only if some
  radius lies outside \<open>(R\<^sub>0, R\<^sub>N]\<close>; a radius equal to \<open>R\<^sub>0\<close> is rejected and a
  radius equal to \<open>R\<^sub>N\<close> is accepted.
\<close>

theorem C3_radius_check:
  assumes ov: "others_valid S_part K_part R_part dimf lat_ext K_well"
    and ne: "rad \<noteq> []"
  shows "raises_input_error
           (grf_laplace e s rad S_part K_part R_part dimf lat_ext rate K_well cut_off_prec)
         = radius_outside R_part rad
       \<and> (hd R_part \<in> set rad \<longrightarrow> radius_outside R_part rad)
       \<and> (set rad = {last R_part} \<longrightarrow> \<not> radius_outside R_part rad)"
proof -
  from ov obtain kw where kw: "resolve_K_well K_part K_well = Inr kw"
    by (cases "resolve_K_well K_part K_well") (simp_all add: others_valid_def)
  have v: "validate rad S_part K_part R_part dimf lat_ext K_well =
           (if \<forall>r\<in>set rad. in_range R_part r then Inr kw
            else Inl (ValueError ''The given radii need to be in the given range.''))"
    using validate_others_valid[OF ov kw]
      check_rad_iff[OF ne others_valid_last_not_nan[OF ov]] by simp
  have out: "radius_outside R_part rad = (\<not> (\<forall>r\<in>set rad. in_range R_part r))"
    by (simp add: radius_outside_def list_ex_iff)
  let ?g = "grf_laplace e s rad S_part K_part R_part dimf lat_ext rate K_well cut_off_prec"
  have main: "raises_input_error ?g = radius_outside R_part rad"
  proof (cases "\<forall>r\<in>set rad. in_range R_part r")
    case True
    with v have vk: "validate rad S_part K_part R_part dimf lat_ext K_well = Inr kw" by simp
    have "\<not> raises_input_error ?g"
    proof (cases ?g)
      case (Inl err)
      from grf_laplace_late_error[OF vk Inl] have "late_error err" .
      then show ?thesis using Inl late_error_not_input by simp
    next
      case (Inr res)
      then show ?thesis by simp
    qed
    with True out show ?thesis by simp
  next
    case False
    with v have "?g = Inl (ValueError ''The given radii need to be in the given range.'')"
      by (simp add: grf_laplace_def)
    then have "raises_input_error ?g" by (simp add: input_error_messages_def)
    with False out show ?thesis by simp
  qed
  have p1: "hd R_part \<in> set rad \<longrightarrow> radius_outside R_part rad"
    using hd_not_in_range out by blast
  have p2: "set rad = {last R_part} \<longrightarrow> \<not> radius_outside R_part rad"
    using others_valid_last_in_range[OF ov] out by simp
  from main p1 p2 show ?thesis by blast
qed

theorem C3_radius_check_witness:
  "others_valid [Fin 1] [Fin 1] [Fin 1, Fin 2] (Fin 2) (Fin 1) None
   \<and> [Fin 2] \<noteq> []
   \<and> \<not> raises_input_error
        (grf_laplace env_unit [Fin 1] [Fin 2] [Fin 1] [Fin 1] [Fin 1, Fin 2]
           (Fin 2) (Fin 1) (Fin 1) None (Fin (1 / 10 ^ 20)))"
proof -
  have h: "others_valid [Fin 1] [Fin 1] [Fin 1, Fin 2] (Fin 2) (Fin 1) None"
    by (simp add: others_valid_def radii_sorted_def resolve_K_well_def)
  have n: "[Fin 2] \<noteq> []" by simp
  show ?thesis
    using C3_radius_check[OF h n, of env_unit "[Fin 1]" "Fin 1" "Fin (1 / 10 ^ 20)"] h
    by simp
qed

text \<open>
  With no radius requested, \<^verbatim>\<open>np.min(rad)\<close> on line 114 raises
  \<^verbatim>\<open>ValueError\<close> although no radius lies outside the interval.
\<close>

theorem C3_empty_rad_counterexample:
  "others_valid [Fin 1] [Fin 1] [Fin 0, Fin 1] (Fin 2) (Fin 1) None
   \<and> raises_input_error
        (grf_laplace env_unit [Fin 1] [] [Fin 1] [Fin 1] [Fin 0, Fin 1]
           (Fin 2) (Fin 1) (Fin 1) None (Fin (1 / 10 ^ 20)))
   \<and> \<not> radius_outside [Fin 0, Fin 1] []"
  by (simp add: others_valid_def radii_sorted_def resolve_K_well_def grf_laplace_def
        validate_def check_rad_def np_min_def input_error_messages_def radius_outside_def)

section \<open>The shape of the result\<close>

lemma has_shape_update:
  "has_shape res n m \<Longrightarrow> length row = m \<Longrightarrow> has_shape (res[si := row]) n m"
  unfolding has_shape_def list_all_iff
  by (auto dest: set_update_subset_insert[THEN subsetD])

lemma has_shape_nth: "has_shape res n m \<Longrightarrow> si < n \<Longrightarrow> length (res ! si) = m"
  unfolding has_shape_def list_all_length by simp

lemma has_shape_zeros: "has_shape (replicate n (zeros m)) n m"
  by (simp add: has_shape_def zeros_def list_all_iff)

lemma single_step_shape:
  assumes "single_step e nu dsr0 R_part rad se q si (V, M, res) = Inr (V', M', res')"
    and "has_shape res n (length rad)"
  shows "has_shape res' n (length rad)"
proof (cases "si < n")
  case True
  from assms(1) obtain row where r: "res' = res[si := row]"
    and row: "length row = length (zip rad (res ! si))"
    unfolding single_step_def
    by (auto simp: Let_def split: option.splits list.splits)
  from has_shape_nth[OF assms(2) True] row have "length row = length rad" by simp
  with r show ?thesis using has_shape_update[OF assms(2)] by simp
next
  case False
  from assms(1) obtain row where r: "res' = res[si := row]"
    unfolding single_step_def
    by (auto simp: Let_def split: option.splits list.splits)
  from False assms(2) have "length res \<le> si" by (simp add: has_shape_def)
  then have "res[si := row] = res" by (rule list_update_beyond)
  with r assms(2) show ?thesis by simp
qed

lemma single_loop_shape:
  "single_loop e nu dsr0 R_part rad xs (V, M, res) = Inr (V', M', res') \<Longrightarrow>
   has_shape res n (length rad) \<Longrightarrow> has_shape res' n (length rad)"
proof (induction xs arbitrary: V M res)
  case Nil
  then show ?case by simp
next
  case (Cons x xs)
  obtain si se q where x: "x = (si, se, q)" by (cases x) auto
  from Cons.prems(1) x obtain V1 M1 res1 where
    st: "single_step e nu dsr0 R_part rad se q si (V, M, res) = Inr (V1, M1, res1)"
    and lp: "single_loop e nu dsr0 R_part rad xs (V1, M1, res1) = Inr (V', M', res')"
    by (auto split: sum.splits)
  from single_step_shape[OF st Cons.prems(2)] have "has_shape res1 n (length rad)" .
  from Cons.IH[OF lp this] show ?case .
qed

lemma collect_length: "collect rs = Inr xs \<Longrightarrow> length xs = length rs"
  by (induction rs arbitrary: xs rule: collect.induct) (auto split: sum.splits)

lemma head_row_length:
  "head_row e nu Cs c X rad ps = Inr row \<Longrightarrow> length ps = length rad \<Longrightarrow>
   length row = length rad"
  unfolding head_row_def by (auto dest: collect_length)

lemma multi_step_shape:
  assumes "multi_step e nu R_part rad parts dsr tmpv ps c se q si (V, Mb, X, res)
             = Inr (V', Mb', X', res')"
    and "has_shape res n (length rad)" and "length ps = length rad"
  shows "has_shape res' n (length rad)"
proof -
  from assms(1) obtain row Cs X3 where r: "res' = res[si := row]"
    and row: "head_row e nu Cs c X3 rad ps = Inr row"
    unfolding multi_step_def
    by (auto simp: Let_def split: sum.splits prod.splits)
  from head_row_length[OF row assms(3)] r show ?thesis
    using has_shape_update[OF assms(2)] by simp
qed

lemma multi_loop_shape:
  "multi_loop e nu R_part rad parts dsr tmpv ps c xs (V, Mb, X, res) = Inr (V', Mb', X', res')
   \<Longrightarrow> has_shape res n (length rad) \<Longrightarrow> length ps = length rad
   \<Longrightarrow> has_shape res' n (length rad)"
proof (induction xs arbitrary: V Mb X res)
  case Nil
  then show ?case by simp
next
  case (Cons x xs)
  obtain si se q where x: "x = (si, se, q)" by (cases x) auto
  from Cons.prems(1) x obtain V1 M1 X1 res1 where
    st: "multi_step e nu R_part rad parts dsr tmpv ps c se q si (V, Mb, X, res)
           = Inr (V1, M1, X1, res1)"
    and lp: "multi_loop e nu R_part rad parts dsr tmpv ps c xs (V1, M1, X1, res1)
           = Inr (V', Mb', X', res')"
    by (auto split: sum.splits)
  from multi_step_shape[OF st Cons.prems(2,3)] have "has_shape res1 n (length rad)" .
  from Cons.IH[OF lp this Cons.prems(3)] show ?case .
qed

lemma run_loops_shape:
  assumes "run_loops e nu s rad S_part K_part R_part c = Inr res"
  shows "has_shape res (length s) (length rad)"
proof (cases "length K_part = 1")
  case True
  with assms obtain V M where
    "single_loop e nu (diff_sr0 e S_part K_part) R_part rad
       (enumerate_s s (map (Qs_elem e nu (diff_sr0 e S_part K_part) R_part) s))
       (zeros 2, eye2, replicate (length s) (zeros (length rad))) = Inr (V, M, res)"
    unfolding run_loops_def by (auto simp: Let_def split: sum.splits)
  from single_loop_shape[OF this has_shape_zeros] show ?thesis .
next
  case False
  with assms obtain V Mb X where
    "multi_loop e nu R_part rad (length K_part) (difsr e S_part K_part) (tmp e S_part K_part)
       (pos R_part rad) c
       (enumerate_s s (map (Qs_elem e nu (diff_sr0 e S_part K_part) R_part) s))
       (zeros (2 * length K_part), Mb_init (length K_part), zeros (2 * length K_part),
        replicate (length s) (zeros (length rad))) = Inr (V, Mb, X, res)"
    unfolding run_loops_def by (auto simp: Let_def split: sum.splits)
  from multi_loop_shape[OF this has_shape_zeros] show ?thesis by (simp add: pos_def)
qed

lemma finish_shape:
  "finish e res rate kw dimf lat_ext = Inr out \<Longrightarrow> has_shape res n m \<Longrightarrow> has_shape out n m"
  unfolding finish_def
  by (auto simp: Let_def has_shape_def list_all_iff split: sum.splits)

text \<open>
  Claim C7. Whenever \<^verbatim>\<open>grf_laplace\<close> returns, for one disk or for several, the result
  has \<^verbatim>\<open>len(s)\<close> rows of \<^verbatim>\<open>len(rad)\<close> values each.
\<close>

theorem C7_shape:
  assumes "grf_laplace e s rad S_part K_part R_part dimf lat_ext rate K_well cut_off_prec
             = Inr res"
  shows "has_shape res (length s) (length rad)"
proof -
  from assms obtain kw r0 where
    "run_loops e (sub e (Fin 1) (divide_fl e dimf (Fin 2))) s rad S_part K_part R_part
       cut_off_prec = Inr r0"
    and f: "finish e r0 rate kw dimf lat_ext = Inr res"
    unfolding grf_laplace_def by (auto simp: Let_def split: sum.splits)
  from finish_shape[OF f run_loops_shape[OF this(1)]] show ?thesis .
qed

theorem C7_shape_witness:
  "grf_laplace env_unit [Fin 5, Fin 10] [Fin 1, Fin 2, Fin 3] [Fin 1] [Fin 1] [Fin 0, Fin 10]
     (Fin 2) (Fin 1) (Fin (- 1)) None (Fin (1 / 10 ^ 20))
   = Inr [[Fin (- 1), Fin (- 1), Fin (- 1)], [Fin (- 1), Fin (- 1), Fin (- 1)]]
   \<and> has_shape [[Fin (- 1), Fin (- 1), Fin (- 1)], [Fin (- 1), Fin (- 1), Fin (- 1)]] 2 3"
proof -
  have run: "grf_laplace env_unit [Fin 5, Fin 10] [Fin 1, Fin 2, Fin 3] [Fin 1] [Fin 1]
               [Fin 0, Fin 10] (Fin 2) (Fin 1) (Fin (- 1)) None (Fin (1 / 10 ^ 20))
             = Inr [[Fin (- 1), Fin (- 1), Fin (- 1)], [Fin (- 1), Fin (- 1), Fin (- 1)]]"
    by code_simp
  show ?thesis using C7_shape[OF run] run by (simp add: numeral_2_eq_2 numeral_3_eq_3)
qed

section \<open>A singular system\<close>

text \<open>
  On the multi-disk path with \<open>first \<le> 1\<close>, lines 241 to 245 catch the
  \<^verbatim>\<open>LinAlgError\<close> of a singular system and set the two coefficients to zero.
\<close>

lemma solve_coeffs_singular:
  assumes "first \<le> 1"
    and "linalg_solve e [[Mb ! 2 ! 0, Mb ! 1 ! 1], [Mb ! 3 ! 0, Mb ! 2 ! 1]] (take 2 V) = None"
  shows "solve_coeffs e first parts Mb V X = Inr (Mb, replicate 2 (Fin 0) @ drop 2 X)"
  using assms by (simp add: solve_coeffs_def)

text \<open>
  Claim C2. A singular system is never to raise. On the one-disk path, line 159 calls
  \<^verbatim>\<open>np.linalg.solve\<close> outside any \<^verbatim>\<open>try\<close>: for \<^verbatim>\<open>s = [1e6]\<close> the matrix is
  \<open>[[-0, \<infinity>], [0, \<infinity>]]\<close>, its first pivot is zero, and the call ends with
  \<^verbatim>\<open>LinAlgError\<close>.
\<close>

theorem C2_single_disk_raises_LinAlgError:
  "grf_laplace env_underflow [Fin (10 ^ 6)] [Fin (3 / 2)] [Fin 1] [Fin 1] [Fin 1, Fin 2]
     (Fin 2) (Fin 1) (Fin 1) None (Fin (1 / 10 ^ 20)) = Inl LinAlgError"
  by code_simp

section \<open>A radius on the outer boundary\<close>

lemma fl_less_irrefl: "\<not> fl_less a a"
  by (cases a) auto

lemma single_step_column:
  assumes st: "single_step e nu dsr0 R_part rad se q si (V, M, res) = Inr (V', M', res')"
    and sh: "has_shape res n (length rad)"
    and ri: "ri < length rad" and sj: "sj < n"
    and at: "rad ! ri = last R_part"
  shows "res' ! sj ! ri = res ! sj ! ri"
proof -
  from st obtain Cs As Bs where r: "res' = res[si := map (\<lambda>(re, old).
        if fl_less re (last R_part) then head1 e nu Cs As Bs re else old) (zip rad (res ! si))]"
    unfolding single_step_def
    by (auto simp: Let_def split: option.splits list.splits)
  show ?thesis
  proof (cases "sj = si")
    case True
    from sh sj have len: "length res = n" by (simp add: has_shape_def)
    from has_shape_nth[OF sh sj] True have l2: "length (res ! si) = length rad" by simp
    have "res' ! si = map (\<lambda>(re, old).
        if fl_less re (last R_part) then head1 e nu Cs As Bs re else old) (zip rad (res ! si))"
      using r len sj True by simp
    then have "res' ! si ! ri = (\<lambda>(re, old).
        if fl_less re (last R_part) then head1 e nu Cs As Bs re else old) (zip rad (res ! si) ! ri)"
      using ri l2 by simp
    also have "\<dots> = res ! si ! ri"
      using ri l2 at fl_less_irrefl by simp
    finally show ?thesis using True by simp
  next
    case False
    then show ?thesis using r by simp
  qed
qed

lemma single_loop_column:
  "single_loop e nu dsr0 R_part rad xs (V, M, res) = Inr (V', M', res') \<Longrightarrow>
   has_shape res n (length rad) \<Longrightarrow> ri < length rad \<Longrightarrow> sj < n \<Longrightarrow>
   rad ! ri = last R_part \<Longrightarrow> res' ! sj ! ri = res ! sj ! ri"
proof (induction xs arbitrary: V M res)
  case Nil
  then show ?case by simp
next
  case (Cons x xs)
  obtain si se q where x: "x = (si, se, q)" by (cases x) auto
  from Cons.prems(1) x obtain V1 M1 res1 where
    st: "single_step e nu dsr0 R_part rad se q si (V, M, res) = Inr (V1, M1, res1)"
    and lp: "single_loop e nu dsr0 R_part rad xs (V1, M1, res1) = Inr (V', M', res')"
    by (auto split: sum.splits)
  have sh1: "has_shape res1 n (length rad)" by (rule single_step_shape[OF st Cons.prems(2)])
  have "res' ! sj ! ri = res1 ! sj ! ri"
    by (rule Cons.IH[OF lp sh1 Cons.prems(3,4,5)])
  also have "\<dots> = res ! sj ! ri"
    by (rule single_step_column[OF st Cons.prems(2,3,4,5)])
  finally show ?case .
qed

lemma run_loops_single_column:
  assumes "run_loops e nu s rad S_part K_part R_part c = Inr res"
    and "length K_part = 1" and "si < length s" and "ri < length rad"
    and "rad ! ri = last R_part"
  shows "res ! si ! ri = Fin 0"
proof -
  from assms(1,2) obtain V M where
    lp: "single_loop e nu (diff_sr0 e S_part K_part) R_part rad
       (enumerate_s s (map (Qs_elem e nu (diff_sr0 e S_part K_part) R_part) s))
       (zeros 2, eye2, replicate (length s) (zeros (length rad))) = Inr (V, M, res)"
    unfolding run_loops_def by (auto simp: Let_def split: sum.splits)
  have "res ! si ! ri = replicate (length s) (zeros (length rad)) ! si ! ri"
    by (rule single_loop_column[OF lp has_shape_zeros assms(4,3,5)])
  then show ?thesis using assms(3,4) by (simp add: zeros_def)
qed

lemma finish_nth:
  assumes "finish e res rate kw dimf lat_ext = Inr out"
    and "has_shape res n m" and "si < n" and "ri < m"
  shows "\<exists>sc. scale_factor e rate kw dimf lat_ext = Inr sc
           \<and> out ! si ! ri = mul e (nan_to_num (res ! si ! ri)) sc"
proof -
  from assms(1) obtain sc where sc: "scale_factor e rate kw dimf lat_ext = Inr sc"
    and out: "out = map (map (\<lambda>x. mul e x sc)) (map (map nan_to_num) res)"
    unfolding finish_def by (auto simp: Let_def split: sum.splits)
  from assms(2,3) have l: "si < length res" by (simp add: has_shape_def)
  from has_shape_nth[OF assms(2,3)] assms(4) have l2: "ri < length (res ! si)" by simp
  from out l l2 have "out ! si ! ri = mul e (nan_to_num (res ! si ! ri)) sc" by simp
  with sc show ?thesis by blast
qed

lemma mul_zero_fin: "is_fin sc \<Longrightarrow> mul e (Fin 0) sc = Fin 0"
  by (cases sc) (simp_all add: mul_def)


lemma validate_InrD:
  assumes "validate rad S_part K_part R_part dimf lat_ext K_well = Inr kw"
  shows "resolve_K_well K_part K_well = Inr kw" and "length R_part = length K_part + 1"
    and "length S_part = length K_part" and "0 < length K_part" and "radii_sorted R_part"
proof -
  from assms obtain k0 where k0: "resolve_K_well K_part K_well = Inr k0"
    unfolding validate_def by (cases "resolve_K_well K_part K_well") auto
  have c1: "int (length R_part) - 1 = int (length S_part)
            \<and> length S_part = length K_part \<and> length K_part > 0"
    using assms k0 unfolding validate_def by (simp split: if_splits)
  have c2: "radii_sorted R_part"
    using assms k0 c1 unfolding validate_def by (simp split: if_splits)
  have c3: "k0 = kw"
    using assms k0 c1 c2 unfolding validate_def by (simp split: if_splits sum.splits)
  from c3 k0 show "resolve_K_well K_part K_well = Inr kw" by simp
  from c1 show "length R_part = length K_part + 1" by linarith
  from c1 show "length S_part = length K_part" by simp
  from c1 show "0 < length K_part" by simp
  from c2 show "radii_sorted R_part" .
qed

lemma searchsorted_Cons:
  "searchsorted (x # xs) v = (if fl_less x v then Suc (searchsorted xs v) else 0)"
  by (simp add: searchsorted_def)

lemma searchsorted_last:
  "radii_sorted (x # y # zs) \<Longrightarrow> searchsorted (x # y # zs) (last (x # y # zs)) = Suc (length zs)"
proof (induction zs arbitrary: x y)
  case Nil
  then show ?case by (simp add: radii_sorted_Cons2 searchsorted_Cons fl_less_irrefl searchsorted_def)
next
  case (Cons z zs)
  from Cons.prems have r: "radii_sorted (y # z # zs)" by (simp only: radii_sorted_Cons2)
  have "fl_less x (last (x # y # z # zs))" by (rule radii_sorted_hd_last[OF Cons.prems])
  then have "searchsorted (x # y # z # zs) (last (x # y # z # zs))
             = Suc (searchsorted (y # z # zs) (last (y # z # zs)))"
    by (simp add: searchsorted_Cons)
  with Cons.IH[OF r] show ?case by simp
qed

lemma pos_last:
  assumes "radii_sorted R_part" and "length R_part = length K_part + 1" and "0 < length K_part"
    and "ri < length rad" and "rad ! ri = last R_part"
  shows "pos R_part rad ! ri = int (length K_part) - 1"
proof -
  from assms(2,3) obtain x y zs where R: "R_part = x # y # zs"
    by (cases R_part; cases "tl R_part") auto
  from searchsorted_last assms(1) R
  have "searchsorted R_part (last R_part) = Suc (length zs)" by blast
  moreover from R assms(2) have "length K_part = Suc (length zs)" by simp
  ultimately show ?thesis using assms(4,5) by (simp add: pos_def)
qed

lemma py_index_nat: "i < length xs \<Longrightarrow> py_index xs (int i) = Inr (xs ! i)"
  by (simp add: py_index_def)

lemma head_elem_last:
  assumes "length X = 2 * n" and "length Cs = n" and "0 < n"
  shows "head_elem e nu Cs c X re (int n - 1) =
           Inr (mul e (np_power e re nu)
                  (add e (if fl_less (fl_abs (X ! (2 * n - 2))) c then Fin 0
                          else mul e (X ! (2 * n - 2)) (kv0 e nu (mul e (Cs ! (n - 1)) re)))
                         (if fl_less (fl_abs (X ! (2 * n - 1))) c then Fin 0
                          else mul e (X ! (2 * n - 1)) (iv0 e nu (mul e (Cs ! (n - 1)) re)))))"
proof -
  have i1: "2 * (int n - 1) = int (2 * n - 2)" and i2: "2 * (int n - 1) + 1 = int (2 * n - 1)"
    and i3: "int n - 1 = int (n - 1)"
    using assms(3) by (simp_all add: of_nat_diff algebra_simps)
  have a: "py_index X (2 * (int n - 1)) = Inr (X ! (2 * n - 2))"
    unfolding i1 using assms(1,3) by (intro py_index_nat) linarith
  have b: "py_index X (2 * (int n - 1) + 1) = Inr (X ! (2 * n - 1))"
    unfolding i2 using assms(1,3) by (intro py_index_nat) linarith
  have c: "py_index Cs (int n - 1) = Inr (Cs ! (n - 1))"
    unfolding i3 using assms(2,3) by (intro py_index_nat) linarith
  show ?thesis unfolding head_elem_def a b c by (simp add: Let_def)
qed


text \<open>
  With an infinite pumping rate the scale factor is infinite and the entry at the outer
  boundary is \<open>0 \<cdot> \<infinity>\<close>, which is NaN: the result is scaled after it is cleaned.
\<close>

theorem C10_infinite_rate_counterexample:
  "grf_laplace env_point_source [Fin 1] [Fin 2] [Fin 1] [Fin 1] [Fin 0, Fin 2]
     (Fin 2) (Fin 1) PInf None (Fin (1 / 10 ^ 20)) = Inr [[NaN]]"
  by code_simp

section \<open>The condition guard and the truncated coefficients\<close>

lemma cond_Nil: "cond flags = [] \<Longrightarrow> c < length flags \<Longrightarrow> \<not> flags ! c"
  by (auto simp: cond_def filter_empty_conv)

lemma cond_Cons:
  assumes "cond flags = c # cs"
  shows "c < length flags" and "flags ! c" and "\<forall>c'<c. \<not> flags ! c'"
proof -
  from assms obtain us vs where
    split: "[0..<length flags] = us @ c # vs" and us: "\<forall>u\<in>set us. \<not> flags ! u"
    and pc: "flags ! c"
    unfolding cond_def filter_eq_Cons_iff by blast
  have "c \<in> set [0..<length flags]" unfolding split by simp
  then show "c < length flags" by simp
  from pc show "flags ! c" .
  have srt: "sorted (us @ c # vs)" using sorted_upt[of 0 "length flags"] unfolding split .
  show "\<forall>c'<c. \<not> flags ! c'"
  proof (intro allI impI)
    fix c' assume lt: "c' < c"
    with \<open>c < length flags\<close> have "c' \<in> set [0..<length flags]" by simp
    then have "c' \<in> set us \<or> c' = c \<or> c' \<in> set vs" unfolding split by auto
    moreover have "c' \<notin> set vs"
    proof
      assume "c' \<in> set vs"
      with srt have "c \<le> c'" by (auto simp: sorted_append)
      with lt show False by simp
    qed
    ultimately have "c' \<in> set us" using lt by auto
    with us show "\<not> flags ! c'" by blast
  qed
qed

lemma find_first_char:
  assumes len: "length flags = 2 * parts"
  shows "find_first flags parts \<le> parts"
    and "\<forall>i<find_first flags parts. \<not> flags ! (2 * i) \<and> \<not> flags ! (2 * i + 1)"
    and "find_first flags parts < parts \<longrightarrow>
           flags ! (2 * find_first flags parts) \<or> flags ! (2 * find_first flags parts + 1)"
proof -
  let ?f = "find_first flags parts"
  have "?f \<le> parts
        \<and> (\<forall>i<?f. \<not> flags ! (2 * i) \<and> \<not> flags ! (2 * i + 1))
        \<and> (?f < parts \<longrightarrow> flags ! (2 * ?f) \<or> flags ! (2 * ?f + 1))"
  proof (cases "cond flags")
    case Nil
    then have f: "?f = parts" by (simp add: find_first_def)
    have "\<forall>i<parts. \<not> flags ! (2 * i) \<and> \<not> flags ! (2 * i + 1)"
    proof (intro allI impI)
      fix i assume "i < parts"
      then have "2 * i < length flags" "2 * i + 1 < length flags" using len by simp_all
      then show "\<not> flags ! (2 * i) \<and> \<not> flags ! (2 * i + 1)"
        using cond_Nil[OF Nil] by blast
    qed
    with f show ?thesis by simp
  next
    case (Cons c cs)
    then have f: "?f = c div 2" by (simp add: find_first_def)
    note cc = cond_Cons[OF Cons]
    from cc(1) len have lt: "c div 2 < parts" by linarith
    have below: "\<forall>i<c div 2. \<not> flags ! (2 * i) \<and> \<not> flags ! (2 * i + 1)"
    proof (intro allI impI)
      fix i assume "i < c div 2"
      then have "2 * i < c" "2 * i + 1 < c" by linarith+
      with cc(3) show "\<not> flags ! (2 * i) \<and> \<not> flags ! (2 * i + 1)" by blast
    qed
    have "c = 2 * (c div 2) \<or> c = 2 * (c div 2) + 1" by linarith
    with cc(2) have "flags ! (2 * (c div 2)) \<or> flags ! (2 * (c div 2) + 1)" by metis
    with f lt below show ?thesis by simp
  qed
  then show "?f \<le> parts"
    and "\<forall>i<?f. \<not> flags ! (2 * i) \<and> \<not> flags ! (2 * i + 1)"
    and "?f < parts \<longrightarrow> flags ! (2 * ?f) \<or> flags ! (2 * ?f + 1)"
    by blast+
qed

lemma assign_prefix_tail:
  assumes "assign_prefix X n r = Inr X'" and "n \<le> j"
  shows "X' ! j = (drop n X) ! (j - n)"
proof -
  from assms(1) obtain p where X': "X' = p @ drop n X" and lp: "length p = n"
    unfolding assign_prefix_def by (auto split: if_splits)
  show ?thesis unfolding X' using lp assms(2) by (simp add: nth_append)
qed

lemma zero_tail_nth:
  assumes "k \<le> length X" and "k \<le> n" and "n \<le> j" and "j < length X"
  shows "drop n (take k X @ replicate (length X - k) (Fin 0)) ! (j - n) = Fin 0"
proof -
  have "drop n (take k X @ replicate (length X - k) (Fin 0))
        = replicate (length X - n) (Fin 0)"
    using assms(1,2) by simp
  then show ?thesis using assms(3,4) by simp
qed

lemma solve_coeffs_zero_tail:
  assumes sc: "solve_coeffs e first parts Mb V
                 (take (2 * first) X @ replicate (length X - 2 * first) (Fin 0)) = Inr (Mb', X2)"
    and len: "length X = 2 * parts" and fp: "first \<le> parts" and p: "1 \<le> parts"
    and j: "2 * max first 1 \<le> j" "j < 2 * parts"
  shows "X2 ! j = Fin 0"
proof -
  let ?X1 = "take (2 * first) X @ replicate (length X - 2 * first) (Fin 0)"
  have k: "2 * first \<le> length X" using len fp by simp
  show ?thesis
  proof (cases "first \<le> 1")
    case True
    then have n: "2 * first \<le> 2" "2 \<le> j" using j(1) by simp_all
    have tail: "drop 2 ?X1 ! (j - 2) = Fin 0"
      using zero_tail_nth[OF k n(1) n(2)] j(2) len by simp
    show ?thesis
    proof (cases "linalg_solve e [[Mb ! 2 ! 0, Mb ! 1 ! 1], [Mb ! 3 ! 0, Mb ! 2 ! 1]] (take 2 V)")
      case None
      with sc True have "X2 = replicate 2 (Fin 0) @ drop 2 ?X1"
        by (simp add: solve_coeffs_def)
      then have "X2 ! j = drop 2 ?X1 ! (j - 2)" using n(2) by (simp add: nth_append)
      with tail show ?thesis by simp
    next
      case (Some r)
      with sc True have "assign_prefix ?X1 2 r = Inr X2"
        by (auto simp: solve_coeffs_def split: sum.splits)
      from assign_prefix_tail[OF this n(2)] tail show ?thesis by simp
    qed
  next
    case False
    then have n: "2 * first \<le> j" using j(1) by simp
    have tail: "drop (2 * first) ?X1 ! (j - 2 * first) = Fin 0"
      using zero_tail_nth[OF k order_refl n] j(2) len by simp
    from sc False obtain M r where "assign_prefix ?X1 (2 * first) r = Inr X2"
      by (auto simp: solve_coeffs_def Let_def split: sum.splits)
    from assign_prefix_tail[OF this n] tail show ?thesis by simp
  qed
qed


lemma nan_to_num_zero: "nan_to_num (Fin 0) = Fin 0"
  by simp

lemma Mb_cond_nth:
  "col < 2 * parts \<Longrightarrow>
   Mb_cond Mb c (divide_fl e (Fin 1) c) parts ! col = flagged e Mb c col"
  by (simp add: Mb_cond_def flagged_def fl_gt_def)

lemma solve_coeffs_length:
  assumes "solve_coeffs e first parts Mb V X1 = Inr (Mb', X2)"
    and "length X1 = 2 * parts" and "first \<le> parts" and "1 \<le> parts"
  shows "length X2 = 2 * parts"
proof -
  have ap: "\<And>n r Y. assign_prefix X1 n r = Inr Y \<Longrightarrow> n \<le> length X1 \<Longrightarrow> length Y = length X1"
    unfolding assign_prefix_def by (auto split: if_splits)
  show ?thesis
  proof (cases "first \<le> 1")
    case True
    show ?thesis
    proof (cases "linalg_solve e [[Mb ! 2 ! 0, Mb ! 1 ! 1], [Mb ! 3 ! 0, Mb ! 2 ! 1]] (take 2 V)")
      case None
      with assms(1) True have "X2 = replicate 2 (Fin 0) @ drop 2 X1"
        by (simp add: solve_coeffs_def)
      then show ?thesis using assms(2,4) by simp
    next
      case (Some r)
      with assms(1) True have "assign_prefix X1 2 r = Inr X2"
        by (auto simp: solve_coeffs_def split: sum.splits)
      from ap[OF this] assms(2,4) show ?thesis by simp
    qed
  next
    case False
    with assms(1) obtain r where "assign_prefix X1 (2 * first) r = Inr X2"
      by (auto simp: solve_coeffs_def Let_def split: sum.splits)
    from ap[OF this] assms(2,3) show ?thesis by simp
  qed
qed

text \<open>
  Claim C1, amended. For one Laplace variable of a multi-disk input, \<^verbatim>\<open>first\<close> is the
  first disk index one of whose two columns of the assembled matrix has a largest absolute
  entry below \<^verbatim>\<open>cut_off_prec\<close> or above its reciprocal, and the number of disks when
  no column crosses a threshold, in which case the full system is solved. In the
  coefficient vector used for the head evaluation every \<open>X\<^sub>j\<close> with
  \<open>j \<ge> 2 \<cdot> max(first, 1)\<close> is exactly zero: the inner block of two unknowns is solved
  also when \<open>first = 0\<close>.
\<close>

theorem C1_condition_guard:
  assumes run: "coefficients e nu Cs R_part tmpv parts cut_off_prec Mb V X = Inr (first, Mb', X')"
    and len: "length X = 2 * parts" and multi: "1 < parts"
  shows "first \<le> parts
       \<and> (\<forall>i<first. \<not> flagged e (assemble e nu Cs R_part tmpv parts Mb) cut_off_prec (2 * i)
                    \<and> \<not> flagged e (assemble e nu Cs R_part tmpv parts Mb) cut_off_prec (2 * i + 1))
       \<and> (first < parts \<longrightarrow>
             flagged e (assemble e nu Cs R_part tmpv parts Mb) cut_off_prec (2 * first)
             \<or> flagged e (assemble e nu Cs R_part tmpv parts Mb) cut_off_prec (2 * first + 1))
       \<and> (first = parts \<longrightarrow>
             (\<exists>X2. assign_prefix X (2 * parts)
                      (penta_solve e (map (take (2 * parts)) (assemble e nu Cs R_part tmpv parts Mb))
                         (take (2 * parts) V)) = Inr X2
                   \<and> X' = map nan_to_num X2))
       \<and> (\<forall>j. 2 * max first 1 \<le> j \<and> j < 2 * parts \<longrightarrow> X' ! j = Fin 0)"
proof -
  let ?A = "assemble e nu Cs R_part tmpv parts Mb"
  let ?flags = "Mb_cond ?A cut_off_prec (divide_fl e (Fin 1) cut_off_prec) parts"
  let ?X1 = "take (2 * first) X @ replicate (length X - 2 * first) (Fin 0)"
  from run have f: "first = find_first ?flags parts"
    unfolding coefficients_def by (auto simp: Let_def split: if_splits sum.splits)
  from run f obtain X2 where
    sc: "solve_coeffs e first parts ?A V ?X1 = Inr (Mb', X2)" and X': "X' = map nan_to_num X2"
    unfolding coefficients_def by (auto simp: Let_def split: if_splits sum.splits)
  have fl: "length ?flags = 2 * parts" by (simp add: Mb_cond_def)
  note ch = find_first_char[OF fl, folded f]
  have a: "first \<le> parts" by (rule ch(1))
  have b: "\<forall>i<first. \<not> flagged e ?A cut_off_prec (2 * i)
                    \<and> \<not> flagged e ?A cut_off_prec (2 * i + 1)"
  proof (intro allI impI)
    fix i assume i: "i < first"
    with a have "2 * i < 2 * parts" "2 * i + 1 < 2 * parts" by simp_all
    with ch(2) i show "\<not> flagged e ?A cut_off_prec (2 * i)
                    \<and> \<not> flagged e ?A cut_off_prec (2 * i + 1)"
      using Mb_cond_nth[of _ parts ?A cut_off_prec e] by metis
  qed
  have c: "first < parts \<longrightarrow>
             flagged e ?A cut_off_prec (2 * first) \<or> flagged e ?A cut_off_prec (2 * first + 1)"
  proof
    assume lt: "first < parts"
    then have "2 * first < 2 * parts" "2 * first + 1 < 2 * parts" by simp_all
    with ch(3) lt show "flagged e ?A cut_off_prec (2 * first)
                        \<or> flagged e ?A cut_off_prec (2 * first + 1)"
      using Mb_cond_nth[of _ parts ?A cut_off_prec e] by metis
  qed
  have d: "first = parts \<longrightarrow>
             (\<exists>X2. assign_prefix X (2 * parts)
                      (penta_solve e (map (take (2 * parts)) ?A) (take (2 * parts) V)) = Inr X2
                   \<and> X' = map nan_to_num X2)"
  proof
    assume fp: "first = parts"
    with len have x1: "?X1 = X" by simp
    from sc fp multi x1 have "assign_prefix X (2 * parts)
        (penta_solve e (map (take (2 * parts)) ?A) (take (2 * parts) V)) = Inr X2"
      by (auto simp: solve_coeffs_def Let_def split: sum.splits)
    with X' show "\<exists>X2. assign_prefix X (2 * parts)
                      (penta_solve e (map (take (2 * parts)) ?A) (take (2 * parts) V)) = Inr X2
                   \<and> X' = map nan_to_num X2" by blast
  qed
  have p1: "1 \<le> parts" using multi by simp
  have l2: "length X2 = 2 * parts"
    using solve_coeffs_length[OF sc _ a p1] len a by simp
  have z: "\<forall>j. 2 * max first 1 \<le> j \<and> j < 2 * parts \<longrightarrow> X' ! j = Fin 0"
  proof (intro allI impI)
    fix j assume j: "2 * max first 1 \<le> j \<and> j < 2 * parts"
    then have "X2 ! j = Fin 0"
      using solve_coeffs_zero_tail[OF sc len a p1] by blast
    with j l2 X' show "X' ! j = Fin 0" by simp
  qed
  from a b c d z show ?thesis by blast
qed

theorem C1_condition_guard_witness:
  "map_sum id (\<lambda>(first, Mb', X'). (first, X'))
     (coefficients env_point_source (Fin 0) [Fin 1, Fin 1] [Fin 0, Fin 2, Fin 100] [Fin 1] 2
        (Fin (1 / 10 ^ 20)) (Mb_init 2) [Fin 1, Fin 0, Fin 0, Fin 0] (zeros 4))
   = Inr (1, [Fin 1, Fin (- (11389 / 227959)), Fin 0, Fin 0])
   \<and> length (zeros 4) = 2 * 2 \<and> (1::nat) < 2
   \<and> [Fin 1, Fin (- (11389 / 227959)), Fin 0, Fin 0] ! 2 = Fin 0
   \<and> [Fin 1, Fin (- (11389 / 227959)), Fin 0, Fin 0] ! 3 = Fin 0"
proof -
  have ev: "map_sum id (\<lambda>(first, Mb', X'). (first, X'))
     (coefficients env_point_source (Fin 0) [Fin 1, Fin 1] [Fin 0, Fin 2, Fin 100] [Fin 1] 2
        (Fin (1 / 10 ^ 20)) (Mb_init 2) [Fin 1, Fin 0, Fin 0, Fin 0] (zeros 4))
     = Inr (1, [Fin 1, Fin (- (11389 / 227959)), Fin 0, Fin 0])"
    by code_simp
  then obtain M where run: "coefficients env_point_source (Fin 0) [Fin 1, Fin 1]
        [Fin 0, Fin 2, Fin 100] [Fin 1] 2
        (Fin (1 / 10 ^ 20)) (Mb_init 2) [Fin 1, Fin 0, Fin 0, Fin 0] (zeros 4)
      = Inr (1, M, [Fin 1, Fin (- (11389 / 227959)), Fin 0, Fin 0])"
    by (cases "coefficients env_point_source (Fin 0) [Fin 1, Fin 1]
        [Fin 0, Fin 2, Fin 100] [Fin 1] 2
        (Fin (1 / 10 ^ 20)) (Mb_init 2) [Fin 1, Fin 0, Fin 0, Fin 0] (zeros 4)") auto
  have len: "length (zeros 4) = 2 * 2" by (simp add: zeros_def)
  have multi: "(1::nat) < 2" by simp
  show ?thesis using C1_condition_guard[OF run len multi] ev len by simp
qed

text \<open>
  For \<^verbatim>\<open>s = 2500\<close> the first column is below the threshold, so \<open>first = 0\<close>, and the
  block of the first disk is solved all the same: \<open>X\<^sub>0\<close> is about \<open>2.3e17\<close>, not zero.
\<close>

theorem C1_first_zero_counterexample:
  "map_sum id (\<lambda>(first, Mb', X'). (first, X' ! 0 = Fin 0))
     (coefficients env_large (Fin 0) [Fin 50, Fin 50] [Fin 1, Fin 2, Fin 3] [Fin 1] 2
        (Fin (1 / 10 ^ 20)) (Mb_init 2) [Fin (- 1 / 125000), Fin 0, Fin 0, Fin 0] (zeros 4))
   = Inr (0, False)"
  by code_simp

section \<open>Cleaning of NaN and infinite values\<close>


























section \<open>The head at the outer boundary\<close>

lemma collect_nth: "collect rs = Inr xs \<Longrightarrow> i < length rs \<Longrightarrow> rs ! i = Inr (xs ! i)"
proof (induction rs arbitrary: xs i rule: collect.induct)
  case 1
  then show ?case by simp
next
  case (2 e uu)
  then show ?case by simp
next
  case (3 x rs)
  from "3.prems"(1) obtain ys where ys: "collect rs = Inr ys" and xs: "xs = x # ys"
    by (auto split: sum.splits)
  show ?case
  proof (cases i)
    case 0
    then show ?thesis using xs by simp
  next
    case (Suc j)
    with "3.prems"(2) have "j < length rs" by simp
    from "3.IH"[OF ys this] show ?thesis using Suc xs by simp
  qed
qed

lemma coefficients_length:
  assumes "coefficients e nu Cs R_part tmpv parts c Mb V X = Inr (first, Mb', X')"
    and "length X = 2 * parts" and "1 \<le> parts"
  shows "length X' = 2 * parts"
proof -
  let ?A = "assemble e nu Cs R_part tmpv parts Mb"
  let ?flags = "Mb_cond ?A c (divide_fl e (Fin 1) c) parts"
  let ?X1 = "take (2 * first) X @ replicate (length X - 2 * first) (Fin 0)"
  from assms(1) have f: "first = find_first ?flags parts"
    unfolding coefficients_def by (auto simp: Let_def split: if_splits sum.splits)
  from assms(1) f obtain X2 where
    sc: "solve_coeffs e first parts ?A V ?X1 = Inr (Mb', X2)" and X': "X' = map nan_to_num X2"
    unfolding coefficients_def by (auto simp: Let_def split: if_splits sum.splits)
  have fl: "length ?flags = 2 * parts" by (simp add: Mb_cond_def)
  have a: "first \<le> parts" using find_first_char(1)[OF fl] f by simp
  have "length ?X1 = 2 * parts" using assms(2) a by simp
  from solve_coeffs_length[OF sc this a assms(3)] X' show ?thesis by simp
qed

lemma multi_step_entry:
  assumes ms: "multi_step e nu R_part rad parts dsr tmpv ps c se q si (V, Mb, X, res)
                 = Inr (V', Mb', X', res')"
    and si: "si < length res" and ri: "ri < length rad" and lps: "length ps = length rad"
  shows "head_elem e nu (map (\<lambda>d. mul e (np_sqrt e se) d) dsr) c X' (rad ! ri) (ps ! ri)
           = Inr (res' ! si ! ri)"
proof -
  let ?Cs = "map (\<lambda>d. mul e (np_sqrt e se) d) dsr"
  from ms obtain first row where
    hr: "head_row e nu ?Cs c X' rad ps = Inr row" and r: "res' = res[si := row]"
    unfolding multi_step_def by (auto simp: Let_def split: sum.splits prod.splits)
  from r si have rw: "res' ! si = row" by simp
  have "map (\<lambda>(re, p). head_elem e nu ?Cs c X' re p) (zip rad ps) ! ri = Inr (row ! ri)"
    using collect_nth[OF hr[unfolded head_row_def]] ri lps by simp
  then show ?thesis using ri lps rw by simp
qed

lemma multi_step_coefficients_length:
  assumes ms: "multi_step e nu R_part rad parts dsr tmpv ps c se q si (V, Mb, X, res)
                 = Inr (V', Mb', X', res')"
    and "length X = 2 * parts" and "1 \<le> parts"
  shows "length X' = 2 * parts"
proof -
  from ms obtain first where
    "coefficients e nu (map (\<lambda>d. mul e (np_sqrt e se) d) dsr) R_part tmpv parts c Mb
       (V[0 := q]) X = Inr (first, Mb', X')"
    unfolding multi_step_def by (auto simp: Let_def split: sum.splits prod.splits)
  from coefficients_length[OF this assms(2,3)] show ?thesis .
qed


text \<open>
  Claim C10, amended. At a requested radius equal to the outer boundary \<open>R\<^sub>N\<close>: with one
  disk the head formula is not evaluated, the entry of the result stays zero for every
  Laplace variable and is returned multiplied by the scale factor, which gives zero
  whenever the scale factor is finite; with several disks the radius is assigned to the last
  disk, and the entry that the iteration of a Laplace variable writes into the result is
  the head formula evaluated at \<open>R\<^sub>N\<close> with the cleaned coefficients of the last disk.
\<close>

theorem C10_outer_radius:
  "(grf_laplace e s rad S_part K_part R_part dimf lat_ext rate K_well cut_off_prec = Inr res
      \<longrightarrow> length K_part = 1 \<longrightarrow> si < length s \<longrightarrow> ri < length rad
      \<longrightarrow> rad ! ri = last R_part \<longrightarrow>
      (\<exists>kw sc. resolve_K_well K_part K_well = Inr kw
          \<and> scale_factor e rate kw dimf lat_ext = Inr sc
          \<and> res ! si ! ri = mul e (Fin 0) sc
          \<and> (is_fin sc \<longrightarrow> res ! si ! ri = Fin 0)))
   \<and> (validate rad S_part K_part R_part dimf lat_ext K_well = Inr kw'
      \<longrightarrow> multi_step e nu R_part rad (length K_part) dsr tmpv (pos R_part rad) cut_off_prec
            se q sj (V, Mb, X, res0) = Inr (V', Mb', X', res')
      \<longrightarrow> length X = 2 * length K_part \<longrightarrow> length dsr = length K_part
      \<longrightarrow> sj < length res0 \<longrightarrow> ri < length rad \<longrightarrow> rad ! ri = last R_part \<longrightarrow>
      pos R_part rad ! ri = int (length K_part) - 1
      \<and> res' ! sj ! ri =
          mul e (np_power e (rad ! ri) nu)
            (add e (if fl_less (fl_abs (X' ! (2 * length K_part - 2))) cut_off_prec
                    then Fin 0
                    else mul e (X' ! (2 * length K_part - 2))
                           (kv0 e nu (mul e (map (\<lambda>d. mul e (np_sqrt e se) d) dsr
                                               ! (length K_part - 1)) (rad ! ri))))
                   (if fl_less (fl_abs (X' ! (2 * length K_part - 1))) cut_off_prec
                    then Fin 0
                    else mul e (X' ! (2 * length K_part - 1))
                           (iv0 e nu (mul e (map (\<lambda>d. mul e (np_sqrt e se) d) dsr
                                               ! (length K_part - 1)) (rad ! ri))))))"
proof (intro conjI impI)
  assume run: "grf_laplace e s rad S_part K_part R_part dimf lat_ext rate K_well cut_off_prec
                 = Inr res"
    and n1: "length K_part = 1" and si: "si < length s" and ri: "ri < length rad"
    and at: "rad ! ri = last R_part"
  let ?nu = "sub e (Fin 1) (divide_fl e dimf (Fin 2))"
  from run obtain kw r0 where
    v: "validate rad S_part K_part R_part dimf lat_ext K_well = Inr kw"
    and rl: "run_loops e ?nu s rad S_part K_part R_part cut_off_prec = Inr r0"
    and f: "finish e r0 rate kw dimf lat_ext = Inr res"
    unfolding grf_laplace_def by (auto simp: Let_def split: sum.splits)
  note vd = validate_InrD[OF v]
  have z: "r0 ! si ! ri = Fin 0"
    by (rule run_loops_single_column[OF rl n1 si ri at])
  from finish_nth[OF f run_loops_shape[OF rl] si ri] obtain sc where
    sc: "scale_factor e rate kw dimf lat_ext = Inr sc"
    and o: "res ! si ! ri = mul e (nan_to_num (r0 ! si ! ri)) sc" by blast
  from o z have o2: "res ! si ! ri = mul e (Fin 0) sc" by simp
  with mul_zero_fin have "is_fin sc \<longrightarrow> res ! si ! ri = Fin 0" by simp
  with vd(1) sc o2 show "\<exists>kw sc. resolve_K_well K_part K_well = Inr kw
                \<and> scale_factor e rate kw dimf lat_ext = Inr sc
                \<and> res ! si ! ri = mul e (Fin 0) sc
                \<and> (is_fin sc \<longrightarrow> res ! si ! ri = Fin 0)" by blast
next
  assume v: "validate rad S_part K_part R_part dimf lat_ext K_well = Inr kw'"
    and ri: "ri < length rad" and at: "rad ! ri = last R_part"
  note vd = validate_InrD[OF v]
  show "pos R_part rad ! ri = int (length K_part) - 1"
    by (rule pos_last[OF vd(5) vd(2) vd(4) ri at])
next
  let ?Cs = "map (\<lambda>d. mul e (np_sqrt e se) d) dsr"
  assume v: "validate rad S_part K_part R_part dimf lat_ext K_well = Inr kw'"
    and ms: "multi_step e nu R_part rad (length K_part) dsr tmpv (pos R_part rad) cut_off_prec
            se q sj (V, Mb, X, res0) = Inr (V', Mb', X', res')"
    and lx: "length X = 2 * length K_part" and ld: "length dsr = length K_part"
    and sj: "sj < length res0" and ri: "ri < length rad" and at: "rad ! ri = last R_part"
  note vd = validate_InrD[OF v]
  have p: "pos R_part rad ! ri = int (length K_part) - 1"
    by (rule pos_last[OF vd(5) vd(2) vd(4) ri at])
  have one: "1 \<le> length K_part" using vd(4) by linarith
  have lx': "length X' = 2 * length K_part"
    by (rule multi_step_coefficients_length[OF ms lx one])
  have lc: "length ?Cs = length K_part" using ld by simp
  have lp: "length (pos R_part rad) = length rad" by (simp add: pos_def)
  have "head_elem e nu ?Cs cut_off_prec X' (rad ! ri) (pos R_part rad ! ri)
          = Inr (res' ! sj ! ri)"
    by (rule multi_step_entry[OF ms sj ri lp])
  then have "Inr (res' ! sj ! ri)
      = head_elem e nu ?Cs cut_off_prec X' (rad ! ri) (int (length K_part) - 1)"
    unfolding p by simp
  also note head_elem_last[OF lx' lc vd(4)]
  finally show "res' ! sj ! ri =
          mul e (np_power e (rad ! ri) nu)
            (add e (if fl_less (fl_abs (X' ! (2 * length K_part - 2))) cut_off_prec
                    then Fin 0
                    else mul e (X' ! (2 * length K_part - 2))
                           (kv0 e nu (mul e (?Cs ! (length K_part - 1)) (rad ! ri))))
                   (if fl_less (fl_abs (X' ! (2 * length K_part - 1))) cut_off_prec
                    then Fin 0
                    else mul e (X' ! (2 * length K_part - 1))
                           (iv0 e nu (mul e (?Cs ! (length K_part - 1)) (rad ! ri)))))"
    by simp
qed


theorem C10_outer_radius_witness:
  "grf_laplace env_point_source [Fin 1] [Fin 2] [Fin 1] [Fin 1] [Fin 0, Fin 2]
     (Fin 2) (Fin 1) (Fin (- 1)) None (Fin (1 / 10 ^ 20)) = Inr [[Fin 0]]
   \<and> [Fin 2] ! 0 = last [Fin 0, Fin 2]
   \<and> [[Fin 0]] ! 0 ! 0 = Fin 0
   \<and> validate [Fin 10] [Fin 1, Fin 1] [Fin 1, Fin 1] [Fin 0, Fin 2, Fin 10] (Fin 2) (Fin 1) None
       = Inr (Fin 1)
   \<and> map_sum id (\<lambda>(V, Mb, X, res). (X, res))
         (multi_step env_ones (Fin 0) [Fin 0, Fin 2, Fin 10] [Fin 10] 2 [Fin 1, Fin 1] [Fin 1]
            (pos [Fin 0, Fin 2, Fin 10] [Fin 10]) (Fin (1 / 10 ^ 20)) (Fin 5) (Fin 1) 0
            (zeros 4, Mb_init 2, zeros 4, [[Fin 0]]))
       = Inr ([Fin 1, Fin 1, Fin 1, Fin 1], [[Fin 2]])
   \<and> [Fin 10] ! 0 = last [Fin 0, Fin 2, Fin 10]
   \<and> pos [Fin 0, Fin 2, Fin 10] [Fin 10] ! 0 = 1
   \<and> [[Fin 2]] ! 0 ! 0
       = mul env_ones (np_power env_ones (Fin 10) (Fin 0))
           (add env_ones
              (mul env_ones (Fin 1) (kv0 env_ones (Fin 0) (mul env_ones (Fin 5) (Fin 10))))
              (mul env_ones (Fin 1) (iv0 env_ones (Fin 0) (mul env_ones (Fin 5) (Fin 10)))))"
proof -
  have run: "grf_laplace env_point_source [Fin 1] [Fin 2] [Fin 1] [Fin 1] [Fin 0, Fin 2]
     (Fin 2) (Fin 1) (Fin (- 1)) None (Fin (1 / 10 ^ 20)) = Inr [[Fin 0]]"
    by code_simp
  have n1: "length [Fin (1::real)] = 1" and si: "(0::nat) < length [Fin 1]"
    and ri: "(0::nat) < length [Fin 2]" and at: "[Fin 2] ! 0 = last [Fin 0, Fin 2]"
    by simp_all
  note one = C10_outer_radius[THEN conjunct1, rule_format, OF run n1 si ri at]
  have v: "validate [Fin 10] [Fin 1, Fin 1] [Fin 1, Fin 1] [Fin 0, Fin 2, Fin 10] (Fin 2) (Fin 1)
             None = Inr (Fin 1)"
    by code_simp
  have ev: "map_sum id (\<lambda>(V, Mb, X, res). (X, res))
         (multi_step env_ones (Fin 0) [Fin 0, Fin 2, Fin 10] [Fin 10] 2 [Fin 1, Fin 1] [Fin 1]
            (pos [Fin 0, Fin 2, Fin 10] [Fin 10]) (Fin (1 / 10 ^ 20)) (Fin 5) (Fin 1) 0
            (zeros 4, Mb_init 2, zeros 4, [[Fin 0]]))
       = Inr ([Fin 1, Fin 1, Fin 1, Fin 1], [[Fin 2]])"
    by code_simp
  then obtain V' Mb' where ms2: "multi_step env_ones (Fin 0) [Fin 0, Fin 2, Fin 10] [Fin 10]
            2 [Fin 1, Fin 1] [Fin 1]
            (pos [Fin 0, Fin 2, Fin 10] [Fin 10]) (Fin (1 / 10 ^ 20)) (Fin 5) (Fin 1) 0
            (zeros 4, Mb_init 2, zeros 4, [[Fin 0]])
       = Inr (V', Mb', [Fin 1, Fin 1, Fin 1, Fin 1], [[Fin 2]])"
    by (cases "multi_step env_ones (Fin 0) [Fin 0, Fin 2, Fin 10] [Fin 10] 2 [Fin 1, Fin 1] [Fin 1]
            (pos [Fin 0, Fin 2, Fin 10] [Fin 10]) (Fin (1 / 10 ^ 20)) (Fin 5) (Fin 1) 0
            (zeros 4, Mb_init 2, zeros 4, [[Fin 0]])") auto
  have l2: "length [Fin 1, Fin (1::real)] = 2" by simp
  have ms: "multi_step env_ones (Fin 0) [Fin 0, Fin 2, Fin 10] [Fin 10]
            (length [Fin 1, Fin (1::real)]) [Fin 1, Fin 1] [Fin 1]
            (pos [Fin 0, Fin 2, Fin 10] [Fin 10]) (Fin (1 / 10 ^ 20)) (Fin 5) (Fin 1) 0
            (zeros 4, Mb_init 2, zeros 4, [[Fin 0]])
       = Inr (V', Mb', [Fin 1, Fin 1, Fin 1, Fin 1], [[Fin 2]])"
    unfolding l2 by (rule ms2)
  have lx: "length (zeros 4) = 2 * length [Fin 1, Fin (1::real)]"
    and ld: "length [Fin 1, Fin (1::real)] = length [Fin 1, Fin (1::real)]"
    and sj: "(0::nat) < length [[Fin (0::real)]]" and rj: "(0::nat) < length [Fin 10]"
    and at2: "[Fin 10] ! 0 = last [Fin 0, Fin 2, Fin 10]"
    by (simp_all add: zeros_def)
  note two = C10_outer_radius[THEN conjunct2, rule_format, OF v ms lx ld sj rj at2]
  show ?thesis using one two run v ev
    by (simp add: env_ones_def mul_def add_def kv0_def iv0_def get_bessel_def)
qed

end
